theory Spec2Isabelle
  imports Complex_Main "HOL-Library.AList"
begin

section \<open>Provider budget routing: \<^verbatim>\<open>litellm/router_strategy/provider_budgets.py\<close>\<close>

text \<open>
  A shallow embedding of the class \<^verbatim>\<open>ProviderBudgetLimiting\<close>.

  \<^item> Python exceptions are values of the type \<open>error\<close>; a function that may raise returns
    \<open>error + 'a\<close>, with \<open>Inl\<close> for the exception.
  \<^item> Python \<^verbatim>\<open>float\<close> spend totals and budget limits are real numbers. Not-a-number and the
    infinities are outside the model.
  \<^item> A \<open>string\<close> stands for a Python \<^verbatim>\<open>str\<close> whose code points are below 256, one
    \<open>char\<close> per code point.
  \<^item> Python dictionaries that are iterated (\<^verbatim>\<open>_provider_configs\<close>, \<^verbatim>\<open>provider_configs\<close>,
    \<^verbatim>\<open>provider_spend_map\<close>) are association lists in insertion order, written with
    \<open>AList.update\<close>: assigning to a key that is present keeps its position, a new key goes
    to the end. The budget configuration, which is only looked up, is a map.
  \<^item> The router cache is outside this file. Its answers are parameters of the model, and
    every function that talks to the cache returns the list of calls it has issued
    together with its result.
\<close>

subsection \<open>Exceptions\<close>

datatype error =
    ValueError string
  | KeyError string
  | IndexError string
  | OtherError string

subsection \<open>Python's \<^verbatim>\<open>int(str)\<close> and \<^verbatim>\<open>str.endswith\<close>\<close>

text \<open>
  \<^verbatim>\<open>int(s)\<close> in base 10, as CPython parses it: white space is stripped on both sides, one
  sign may follow, then decimal digits in which single underscores may separate digits.
  For code points below 256 the white space characters are 9 to 13, 32, 133 and 160, and
  the decimal digits are \<^verbatim>\<open>0\<close> to \<^verbatim>\<open>9\<close>. A literal of more than \<open>max_str_digits\<close> digits is
  refused (the interpreter's default limit of 4300).
\<close>

definition py_isspace :: "char \<Rightarrow> bool" where
  "py_isspace c = ((of_char c :: nat) \<in> {9, 10, 11, 12, 13, 32, 133, 160})"

definition py_isdigit :: "char \<Rightarrow> bool" where
  "py_isdigit c = (48 \<le> (of_char c :: nat) \<and> (of_char c :: nat) \<le> 57)"

definition digit_value :: "char \<Rightarrow> int" where
  "digit_value c = int (of_char c) - 48"

definition py_strip :: "string \<Rightarrow> string" where
  "py_strip s = rev (dropWhile py_isspace (rev (dropWhile py_isspace s)))"

datatype scan = Start | AfterDigit | AfterUnderscore

fun py_digits :: "scan \<Rightarrow> int \<Rightarrow> string \<Rightarrow> int option" where
  "py_digits st acc [] = (if st = AfterDigit then Some acc else None)"
| "py_digits st acc (c # cs) =
     (if c = CHR ''_'' then
        (if st = AfterDigit then py_digits AfterUnderscore acc cs else None)
      else if py_isdigit c then py_digits AfterDigit (10 * acc + digit_value c) cs
      else None)"

definition max_str_digits :: nat where
  "max_str_digits = 4300"

definition split_sign :: "string \<Rightarrow> bool \<times> string" where
  "split_sign t =
     (case t of
        [] \<Rightarrow> (False, [])
      | c # r \<Rightarrow>
          if c = CHR ''-'' then (True, r)
          else if c = CHR ''+'' then (False, r)
          else (False, t))"

definition py_int :: "string \<Rightarrow> int option" where
  "py_int s =
     (let (neg, body) = split_sign (py_strip s)
      in if max_str_digits < length (filter py_isdigit body) then None
         else map_option (\<lambda>v. if neg then - v else v) (py_digits Start 0 body))"

definition endswith :: "string \<Rightarrow> string \<Rightarrow> bool" where
  "endswith s suffix =
     (length suffix \<le> length s \<and> drop (length s - length suffix) s = suffix)"

subsection \<open>\<^verbatim>\<open>get_ttl_seconds\<close>\<close>

text \<open>
  \<^verbatim>\<open>
  def get_ttl_seconds(self, time_period: str) -> int:
      if time_period.endswith("d"):
          days = int(time_period[:-1])
          return days * 24 * 60 * 60
      raise ValueError(f"Unsupported time period format: {time_period}")
  \<close>
  \<^verbatim>\<open>int\<close> raises \<^verbatim>\<open>ValueError\<close> itself when the text before the \<^verbatim>\<open>d\<close> is not an integer;
  its message shows that text, here without the quotes Python prints around it.
\<close>

definition get_ttl_seconds :: "string \<Rightarrow> error + int" where
  "get_ttl_seconds time_period =
     (if endswith time_period ''d'' then
        (case py_int (butlast time_period) of
           None \<Rightarrow>
             Inl (ValueError (''invalid literal for int() with base 10: '' @ butlast time_period))
         | Some days \<Rightarrow> Inr (days * 24 * 60 * 60))
      else Inl (ValueError (''Unsupported time period format: '' @ time_period)))"

text \<open>
  The form of a period in the words of the specification: an integer count of days
  followed by the suffix \<^verbatim>\<open>d\<close>, as in \<^verbatim>\<open>1d\<close> and \<^verbatim>\<open>30d\<close>. The count is one decimal digit or
  more, and nothing else stands before the \<^verbatim>\<open>d\<close>.
\<close>

definition integer_d_form :: "string \<Rightarrow> bool" where
  "integer_d_form s =
     (endswith s ''d'' \<and> butlast s \<noteq> [] \<and> list_all py_isdigit (butlast s))"

text \<open>
  The texts that \<^verbatim>\<open>int\<close> accepts, written as a grammar of their own: white space, one
  optional sign, groups of decimal digits separated by single underscores, white space.
  \<open>int_text_d\<close> holds of such a text followed by \<^verbatim>\<open>d\<close>; this is wider than
  \<open>integer_d_form\<close>.
\<close>

fun digit_groups :: "string \<Rightarrow> bool" where
  "digit_groups [] = False"
| "digit_groups [c] = py_isdigit c"
| "digit_groups (c # u # cs) =
     (py_isdigit c \<and> (if u = CHR ''_'' then digit_groups cs else digit_groups (u # cs)))"

definition int_text :: "string \<Rightarrow> bool" where
  "int_text b =
     (\<exists>ws1 sgn ds ws2.
        b = ws1 @ sgn @ ds @ ws2 \<and> list_all py_isspace ws1 \<and> list_all py_isspace ws2 \<and>
        (sgn = [] \<or> sgn = ''+'' \<or> sgn = ''-'') \<and> digit_groups ds)"

definition int_text_d :: "string \<Rightarrow> bool" where
  "int_text_d s = (\<exists>body. s = body @ ''d'' \<and> int_text body)"

subsection \<open>Budget configuration and deployments\<close>

text \<open>
  \<^verbatim>\<open>ProviderBudgetInfo\<close> has the two fields \<^verbatim>\<open>time_period\<close> and \<^verbatim>\<open>budget_limit\<close>;
  \<^verbatim>\<open>provider_budget_config\<close> is a dictionary from provider names to it.
  A deployment is a dictionary of which only the key \<^verbatim>\<open>litellm_params\<close> is read; the field
  is \<open>None\<close> when the key is missing.
\<close>

record ProviderBudgetInfo =
  time_period :: string
  budget_limit :: real

type_synonym ProviderBudgetConfigType = "string \<rightharpoonup> ProviderBudgetInfo"

record 'p Deployment =
  litellm_params :: "'p option"

text \<open>
  \<^verbatim>\<open>
  def _get_budget_config_for_provider(self, provider):
      return self.provider_budget_config.get(provider, None)
  \<close>
\<close>

definition get_budget_config_for_provider ::
  "ProviderBudgetConfigType \<Rightarrow> string \<Rightarrow> ProviderBudgetInfo option" where
  "get_budget_config_for_provider provider_budget_config provider =
     provider_budget_config provider"

text \<open>
  \<^verbatim>\<open>
  def _get_llm_provider_for_deployment(self, deployment):
      try:
          _litellm_params = LiteLLM_Params(**deployment["litellm_params"])
          _, custom_llm_provider, _, _ = litellm.get_llm_provider(
              model=_litellm_params.model, litellm_params=_litellm_params)
      except Exception as e:
          raise e
      return custom_llm_provider
  \<close>
  The parameter \<open>get_llm_provider\<close> stands for \<^verbatim>\<open>LiteLLM_Params(**...)\<close> followed by
  \<^verbatim>\<open>litellm.get_llm_provider\<close>, which are outside this file: it gives the provider name
  or the exception raised. The handler raises what it has caught.
\<close>

definition get_llm_provider_for_deployment ::
  "('p \<Rightarrow> error + string) \<Rightarrow> 'p Deployment \<Rightarrow> error + string" where
  "get_llm_provider_for_deployment get_llm_provider deployment =
     (case litellm_params deployment of
        None \<Rightarrow> Inl (KeyError ''litellm_params'')
      | Some params \<Rightarrow>
          (case get_llm_provider params of
             Inl e \<Rightarrow> Inl e
           | Inr custom_llm_provider \<Rightarrow> Inr custom_llm_provider))"

subsection \<open>The router cache\<close>

text \<open>
  The two calls made to \<^verbatim>\<open>self.router_cache\<close>. A batch read answers with an exception,
  with \<^verbatim>\<open>None\<close>, or with a list whose entries are \<^verbatim>\<open>None\<close> or a number.
\<close>

datatype cache_call =
    BatchGet "string list"
  | Increment string real int

type_synonym batch_reader = "string list \<Rightarrow> error + real option list option"

definition spend_key :: "string \<Rightarrow> string \<Rightarrow> string" where
  "spend_key provider period = ''provider_spend:'' @ provider @ '':'' @ period"

subsection \<open>\<^verbatim>\<open>async_get_available_deployments\<close>\<close>

text \<open>
  The tracing span taken from \<^verbatim>\<open>request_kwargs\<close> at line 57 is only handed on to the cache
  and is left out, as are the calls to the logger.

  Lines 63 to 67: the first loop fills \<^verbatim>\<open>_provider_configs\<close>, one entry per provider, and
  stops at the first deployment whose provider cannot be derived.
\<close>

fun collect_provider_configs ::
  "ProviderBudgetConfigType \<Rightarrow> ('p \<Rightarrow> error + string) \<Rightarrow> 'p Deployment list \<Rightarrow>
   (string \<times> ProviderBudgetInfo option) list \<Rightarrow>
   error + (string \<times> ProviderBudgetInfo option) list" where
  "collect_provider_configs cfg glp [] acc = Inr acc"
| "collect_provider_configs cfg glp (deployment # rest) acc =
     (case get_llm_provider_for_deployment glp deployment of
        Inl e \<Rightarrow> Inl e
      | Inr provider \<Rightarrow>
          collect_provider_configs cfg glp rest
            (AList.update provider (get_budget_config_for_provider cfg provider) acc))"

text \<open>Lines 70 to 74: the entries whose configuration is not \<^verbatim>\<open>None\<close>.\<close>

definition provider_configs ::
  "(string \<times> ProviderBudgetInfo option) list \<Rightarrow> (string \<times> ProviderBudgetInfo) list" where
  "provider_configs pcs =
     List.map_filter (\<lambda>(provider, config). map_option (Pair provider) config) pcs"

text \<open>Lines 77 to 79.\<close>

definition cache_keys :: "(string \<times> ProviderBudgetInfo) list \<Rightarrow> string list" where
  "cache_keys pc = map (\<lambda>(provider, config). spend_key provider (time_period config)) pc"

text \<open>
  Line 86: \<^verbatim>\<open>_current_spends or [0.0] * len(provider_configs)\<close>. \<^verbatim>\<open>None\<close> and the empty list
  are both false.
\<close>

definition current_spends :: "real option list option \<Rightarrow> nat \<Rightarrow> real option list" where
  "current_spends answer n =
     (case answer of
        None \<Rightarrow> replicate n (Some 0)
      | Some xs \<Rightarrow> if xs = [] then replicate n (Some 0) else xs)"

text \<open>\<^verbatim>\<open>float(x or 0.0)\<close>: \<^verbatim>\<open>None\<close> and zero give \<open>0\<close>.\<close>

definition float_or_zero :: "real option \<Rightarrow> real" where
  "float_or_zero x = (case x of None \<Rightarrow> 0 | Some v \<Rightarrow> if v = 0 then 0 else v)"

text \<open>
  Lines 89 to 91: the loop over \<^verbatim>\<open>enumerate(provider_configs.keys())\<close>; reading
  \<^verbatim>\<open>current_spends[idx]\<close> beyond the end of the list raises \<^verbatim>\<open>IndexError\<close>.
\<close>

fun build_spend_map ::
  "real option list \<Rightarrow> nat \<Rightarrow> string list \<Rightarrow> (string \<times> real) list \<Rightarrow>
   error + (string \<times> real) list" where
  "build_spend_map cs idx [] m = Inr m"
| "build_spend_map cs idx (provider # rest) m =
     (if idx < length cs then
        build_spend_map cs (Suc idx) rest
          (AList.update provider (float_or_zero (cs ! idx)) m)
      else Inl (IndexError ''list index out of range''))"

text \<open>\<^verbatim>\<open>provider_spend_map.get(provider, 0.0)\<close>.\<close>

definition spend_of :: "(string \<times> real) list \<Rightarrow> string \<Rightarrow> real" where
  "spend_of m provider = (case map_of m provider of None \<Rightarrow> 0 | Some s \<Rightarrow> s)"

text \<open>
  Lines 94 to 114: the second loop appends to \<^verbatim>\<open>potential_deployments\<close>. A deployment whose
  provider has no entry in \<^verbatim>\<open>provider_configs\<close> is passed over (\<^verbatim>\<open>continue\<close>), and so is one
  whose provider has spent its limit or more. A \<^verbatim>\<open>ProviderBudgetInfo\<close> object is true, so
  \<^verbatim>\<open>not budget_config\<close> holds exactly for \<^verbatim>\<open>None\<close>.
\<close>

fun filter_deployments ::
  "('p \<Rightarrow> error + string) \<Rightarrow> (string \<times> ProviderBudgetInfo) list \<Rightarrow> (string \<times> real) list \<Rightarrow>
   'p Deployment list \<Rightarrow> 'p Deployment list \<Rightarrow> error + 'p Deployment list" where
  "filter_deployments glp pc m [] potential = Inr potential"
| "filter_deployments glp pc m (deployment # rest) potential =
     (case get_llm_provider_for_deployment glp deployment of
        Inl e \<Rightarrow> Inl e
      | Inr provider \<Rightarrow>
          (case map_of pc provider of
             None \<Rightarrow> filter_deployments glp pc m rest potential
           | Some budget_config \<Rightarrow>
               if spend_of m provider \<ge> budget_limit budget_config
               then filter_deployments glp pc m rest potential
               else filter_deployments glp pc m rest (potential @ [deployment])))"

text \<open>
  Line 117: \<^verbatim>\<open>random.choice(potential_deployments) if potential_deployments else None\<close>.
  The number \<open>rnd\<close> is the draw of the random generator; every element of a list that is
  not empty is chosen by some draw.
\<close>

definition random_choice :: "nat \<Rightarrow> 'a list \<Rightarrow> 'a option" where
  "random_choice rnd xs = (if xs = [] then None else Some (xs ! (rnd mod length xs)))"

text \<open>
  The function up to line 91: the calls issued to the cache, and the dictionaries
  \<^verbatim>\<open>provider_configs\<close> and \<^verbatim>\<open>provider_spend_map\<close>.
\<close>

definition read_provider_spend ::
  "ProviderBudgetConfigType \<Rightarrow> ('p \<Rightarrow> error + string) \<Rightarrow> batch_reader \<Rightarrow> 'p Deployment list \<Rightarrow>
   cache_call list \<times> (error + (string \<times> ProviderBudgetInfo) list \<times> (string \<times> real) list)" where
  "read_provider_spend cfg glp async_batch_get_cache healthy_deployments =
     (case collect_provider_configs cfg glp healthy_deployments [] of
        Inl e \<Rightarrow> ([], Inl e)
      | Inr pcs \<Rightarrow>
          (let pc = provider_configs pcs;
               keys = cache_keys pc
           in ([BatchGet keys],
               (case async_batch_get_cache keys of
                  Inl e \<Rightarrow> Inl e
                | Inr answer \<Rightarrow>
                    (case build_spend_map (current_spends answer (length pc)) 0 (map fst pc) [] of
                       Inl e \<Rightarrow> Inl e
                     | Inr m \<Rightarrow> Inr (pc, m))))))"

text \<open>The list \<^verbatim>\<open>potential_deployments\<close> at line 116.\<close>

definition potential_deployments ::
  "ProviderBudgetConfigType \<Rightarrow> ('p \<Rightarrow> error + string) \<Rightarrow> batch_reader \<Rightarrow> 'p Deployment list \<Rightarrow>
   cache_call list \<times> (error + 'p Deployment list)" where
  "potential_deployments cfg glp async_batch_get_cache healthy_deployments =
     (case read_provider_spend cfg glp async_batch_get_cache healthy_deployments of
        (calls, Inl e) \<Rightarrow> (calls, Inl e)
      | (calls, Inr (pc, m)) \<Rightarrow> (calls, filter_deployments glp pc m healthy_deployments []))"

definition async_get_available_deployments ::
  "ProviderBudgetConfigType \<Rightarrow> ('p \<Rightarrow> error + string) \<Rightarrow> batch_reader \<Rightarrow> nat \<Rightarrow>
   'p Deployment list \<Rightarrow> cache_call list \<times> (error + 'p Deployment option)" where
  "async_get_available_deployments cfg glp async_batch_get_cache rnd healthy_deployments =
     (case potential_deployments cfg glp async_batch_get_cache healthy_deployments of
        (calls, Inl e) \<Rightarrow> (calls, Inl e)
      | (calls, Inr potential) \<Rightarrow> (calls, Inr (random_choice rnd potential)))"

subsection \<open>\<^verbatim>\<open>async_log_success_event\<close>\<close>

text \<open>
  Of \<^verbatim>\<open>kwargs\<close> the keys \<^verbatim>\<open>standard_logging_object\<close> and \<^verbatim>\<open>litellm_params\<close> are read; a field
  is \<open>None\<close> when the key is missing. \<^verbatim>\<open>kwargs.get("litellm_params", {})\<close> gives the empty
  dictionary for a missing key, in which \<^verbatim>\<open>custom_llm_provider\<close> is missing too.
  \<^verbatim>\<open>standard_logging_payload.get("response_cost", 0)\<close> gives \<open>0\<close> when the payload has no
  cost.
\<close>

record StandardLoggingPayload =
  response_cost :: "real option"

record LoggedParams =
  custom_llm_provider :: "string option"

record Kwargs =
  standard_logging_object :: "StandardLoggingPayload option"
  logged_litellm_params :: "LoggedParams option"

text \<open>
  The function up to line 148: the exception raised, or the call that line 150 issues.
  The message of the third \<^verbatim>\<open>ValueError\<close> goes on with the printed configuration, which
  is left out here.
\<close>

definition spend_increment :: "ProviderBudgetConfigType \<Rightarrow> Kwargs \<Rightarrow> error + cache_call" where
  "spend_increment cfg kwargs =
     (case standard_logging_object kwargs of
        None \<Rightarrow> Inl (ValueError ''standard_logging_payload is required'')
      | Some standard_logging_payload \<Rightarrow>
          (let cost = (case response_cost standard_logging_payload of None \<Rightarrow> 0 | Some c \<Rightarrow> c);
               provider_opt =
                 (case logged_litellm_params kwargs of
                    None \<Rightarrow> None
                  | Some params \<Rightarrow> custom_llm_provider params)
           in case provider_opt of
                None \<Rightarrow> Inl (ValueError ''custom_llm_provider is required'')
              | Some provider \<Rightarrow>
                  (case get_budget_config_for_provider cfg provider of
                     None \<Rightarrow> Inl (ValueError (''No budget config found for provider '' @ provider))
                   | Some budget_config \<Rightarrow>
                       (case get_ttl_seconds (time_period budget_config) of
                          Inl e \<Rightarrow> Inl e
                        | Inr ttl_seconds \<Rightarrow>
                            Inr (Increment (spend_key provider (time_period budget_config))
                                   cost ttl_seconds)))))"

text \<open>
  The whole function: the parameter \<open>async_increment_cache\<close> is the answer of the cache
  to the increment, an exception or nothing; the exception is not caught.
\<close>

definition async_log_success_event ::
  "ProviderBudgetConfigType \<Rightarrow> (cache_call \<Rightarrow> error + unit) \<Rightarrow> Kwargs \<Rightarrow>
   cache_call list \<times> (error + unit)" where
  "async_log_success_event cfg async_increment_cache kwargs =
     (case spend_increment cfg kwargs of
        Inl e \<Rightarrow> ([], Inl e)
      | Inr call \<Rightarrow> ([call], async_increment_cache call))"

subsection \<open>The spend ledger\<close>

text \<open>
  Modelled from the spec: the counters of the store behind \<^verbatim>\<open>DualCache\<close>, which is not in this
  file. A counter is kept under its key and holds the accumulated spend and the expiry
  it was created with.
\<close>

type_synonym ledger = "string \<rightharpoonup> real \<times> int"

text \<open>
  Modelled from the spec: \<open>incrementSpend\<close>, the store's side of \<^verbatim>\<open>async_increment_cache\<close>,
  which is not in this file. It adds the amount to the counter, creating it with the
  given expiry if absent; the expiry of a counter that is present is not reset.
\<close>

definition incrementSpend :: "ledger \<Rightarrow> string \<Rightarrow> real \<Rightarrow> int \<Rightarrow> ledger" where
  "incrementSpend store key amount ttl =
     (case store key of
        None \<Rightarrow> store(key \<mapsto> (amount, ttl))
      | Some (spent, expiry) \<Rightarrow> store(key \<mapsto> (spent + amount, expiry)))"

text \<open>
  Modelled from the spec: \<open>batchGetSpend\<close>, the store's side of \<^verbatim>\<open>async_batch_get_cache\<close>,
  which is not in this file. It returns the current spend per key in the order of the
  request; a missing key resolves to zero.
\<close>

definition batchGetSpend :: "ledger \<Rightarrow> string list \<Rightarrow> real list" where
  "batchGetSpend store keys =
     map (\<lambda>key. case store key of None \<Rightarrow> 0 | Some (spent, expiry) \<Rightarrow> spent) keys"

text \<open>
  Modelled from the spec: the answers of a cache that reads from the ledger and never
  fails, and the effect of a list of cache calls on the ledger. Both stand for behaviour
  of \<^verbatim>\<open>DualCache\<close>, which is not in this file.
\<close>

definition ledger_reader :: "ledger \<Rightarrow> batch_reader" where
  "ledger_reader store keys = Inr (Some (map Some (batchGetSpend store keys)))"

fun apply_calls :: "cache_call list \<Rightarrow> ledger \<Rightarrow> ledger" where
  "apply_calls [] store = store"
| "apply_calls (BatchGet keys # calls) store = apply_calls calls store"
| "apply_calls (Increment key amount ttl # calls) store =
     apply_calls calls (incrementSpend store key amount ttl)"

subsection \<open>The test of the second loop, and a configuration to evaluate on\<close>

text \<open>
  The condition under which the second loop appends a deployment, as a predicate: its
  provider is derived, has an entry in \<^verbatim>\<open>provider_configs\<close>, and the comparison
  \<^verbatim>\<open>current_spend >= budget_limit\<close> is false.
\<close>

definition eligible ::
  "('p \<Rightarrow> error + string) \<Rightarrow> (string \<times> ProviderBudgetInfo) list \<Rightarrow> (string \<times> real) list \<Rightarrow>
   'p Deployment \<Rightarrow> bool" where
  "eligible glp pc m d =
     (case get_llm_provider_for_deployment glp d of
        Inl e \<Rightarrow> False
      | Inr p \<Rightarrow> (case map_of pc p of None \<Rightarrow> False | Some b \<Rightarrow> spend_of m p < budget_limit b))"

text \<open>
  The configuration of the specification's scenario: \<^verbatim>\<open>openai\<close> with limit 100 and
  \<^verbatim>\<open>anthropic\<close> with limit 50, both per day. Deployments are given by their model string
  \<^verbatim>\<open>provider/model\<close>; the empty model string has no provider.
\<close>

definition example_config :: ProviderBudgetConfigType where
  "example_config =
     [''openai'' \<mapsto> \<lparr>time_period = ''1d'', budget_limit = 100\<rparr>,
      ''anthropic'' \<mapsto> \<lparr>time_period = ''1d'', budget_limit = 50\<rparr>]"

definition example_provider :: "string \<Rightarrow> error + string" where
  "example_provider model =
     (if model = [] then Inl (OtherError ''BadRequestError'')
      else Inr (takeWhile (\<lambda>c. c \<noteq> CHR ''/'') model))"

definition example_deployment :: "string \<Rightarrow> string Deployment" where
  "example_deployment model = \<lparr>litellm_params = Some model\<rparr>"

definition example_ledger :: "real \<Rightarrow> real \<Rightarrow> ledger" where
  "example_ledger openai_spend anthropic_spend =
     [''provider_spend:openai:1d'' \<mapsto> (openai_spend, 86400),
      ''provider_spend:anthropic:1d'' \<mapsto> (anthropic_spend, 86400)]"

definition answer_with :: "error + real option list option \<Rightarrow> batch_reader" where
  "answer_with answer keys = answer"

definition increment_accepted :: "cache_call \<Rightarrow> error + unit" where
  "increment_accepted call = Inr ()"

definition example_event :: "real option \<Rightarrow> string option \<Rightarrow> Kwargs" where
  "example_event cost provider =
     \<lparr>standard_logging_object = Some \<lparr>response_cost = cost\<rparr>,
      logged_litellm_params = Some \<lparr>custom_llm_provider = provider\<rparr>\<rparr>"

section \<open>Properties\<close>

subsection \<open>Periods\<close>

lemma endswith_d: "endswith s ''d'' \<longleftrightarrow> (\<exists>body. s = body @ ''d'')"
  unfolding endswith_def by (cases s rule: rev_cases) auto

lemma py_digits_form:
  "py_digits st acc cs = Some v \<Longrightarrow>
     (if st = AfterDigit
      then cs = [] \<or> (\<exists>r. cs = CHR ''_'' # r \<and> digit_groups r) \<or>
           (cs \<noteq> [] \<and> hd cs \<noteq> CHR ''_'' \<and> digit_groups cs)
      else digit_groups cs)"
proof (induction cs arbitrary: st acc)
  case Nil
  then show ?case by (simp split: if_splits)
next
  case (Cons c cs)
  show ?case
  proof (cases "c = CHR ''_''")
    case True
    with Cons.prems have st: "st = AfterDigit" and run: "py_digits AfterUnderscore acc cs = Some v"
      by (simp_all split: if_splits)
    from Cons.IH [OF run] have "digit_groups cs" by simp
    with True st show ?thesis by simp
  next
    case False
    with Cons.prems have dig: "py_isdigit c"
      and run: "py_digits AfterDigit (10 * acc + digit_value c) cs = Some v"
      by (simp_all split: if_splits)
    from Cons.IH [OF run]
    have "cs = [] \<or> (\<exists>r. cs = CHR ''_'' # r \<and> digit_groups r) \<or>
          (cs \<noteq> [] \<and> hd cs \<noteq> CHR ''_'' \<and> digit_groups cs)" by simp
    then have "digit_groups (c # cs)"
      using dig by (cases cs) auto
    with False show ?thesis by simp
  qed
qed

lemma py_strip_decomp:
  "\<exists>ws1 ws2. s = ws1 @ py_strip s @ ws2 \<and> list_all py_isspace ws1 \<and> list_all py_isspace ws2"
proof -
  let ?u = "dropWhile py_isspace s"
  have a: "s = takeWhile py_isspace s @ ?u" by simp
  have "rev (dropWhile py_isspace (rev ?u)) @ rev (takeWhile py_isspace (rev ?u)) =
        rev (takeWhile py_isspace (rev ?u) @ dropWhile py_isspace (rev ?u))"
    by (rule rev_append [symmetric])
  also have "\<dots> = rev (rev ?u)" by (simp only: takeWhile_dropWhile_id)
  also have "\<dots> = ?u" by simp
  finally have b: "?u = py_strip s @ rev (takeWhile py_isspace (rev ?u))"
    by (simp add: py_strip_def)
  have c: "list_all py_isspace (takeWhile py_isspace s)"
    by (simp add: list_all_iff) (meson set_takeWhileD)
  have d: "list_all py_isspace (rev (takeWhile py_isspace (rev ?u)))"
    by (simp add: list_all_iff) (meson set_takeWhileD)
  from a b have "s = takeWhile py_isspace s @ py_strip s @ rev (takeWhile py_isspace (rev ?u))"
    by metis
  with c d show ?thesis by blast
qed

lemma split_sign_decomp:
  "split_sign t = (neg, body) \<Longrightarrow> \<exists>sgn. t = sgn @ body \<and> (sgn = [] \<or> sgn = ''+'' \<or> sgn = ''-'')"
  by (auto simp: split_sign_def split: list.splits if_splits)

lemma py_int_form:
  assumes "py_int b = Some k"
  shows "int_text b"
proof -
  obtain neg body where sp: "split_sign (py_strip b) = (neg, body)"
    by (cases "split_sign (py_strip b)")
  with assms obtain v where "py_digits Start 0 body = Some v"
    by (auto simp: py_int_def split: if_splits)
  from py_digits_form [OF this] have dg: "digit_groups body" by simp
  from split_sign_decomp [OF sp] obtain sgn
    where t: "py_strip b = sgn @ body" and sg: "sgn = [] \<or> sgn = ''+'' \<or> sgn = ''-''"
    by blast
  from py_strip_decomp [of b] obtain ws1 ws2
    where "b = ws1 @ py_strip b @ ws2" "list_all py_isspace ws1" "list_all py_isspace ws2"
    by blast
  with t have "b = ws1 @ sgn @ body @ ws2" by simp
  with sg dg \<open>list_all py_isspace ws1\<close> \<open>list_all py_isspace ws2\<close>
  show ?thesis unfolding int_text_def by blast
qed

lemma get_ttl_seconds_Inr:
  assumes "get_ttl_seconds s = Inr n"
  shows "\<exists>body days. s = body @ ''d'' \<and> py_int body = Some days \<and> n = days * 86400"
proof -
  from assms have e: "endswith s ''d''"
    by (simp add: get_ttl_seconds_def split: if_splits)
  then obtain body where s: "s = body @ ''d''" using endswith_d by blast
  with assms e obtain days where "py_int body = Some days" "n = days * 24 * 60 * 60"
    by (auto simp: get_ttl_seconds_def split: option.splits)
  with s show ?thesis by auto
qed

lemma get_ttl_seconds_Inl:
  "get_ttl_seconds s = Inl e \<Longrightarrow> \<exists>m. e = ValueError m"
  by (auto simp: get_ttl_seconds_def split: if_splits option.splits)

lemma digits_are_groups:
  "ds \<noteq> [] \<Longrightarrow> list_all py_isdigit ds \<Longrightarrow> digit_groups ds"
proof (induction ds rule: digit_groups.induct)
  case 1
  then show ?case by simp
next
  case (2 c)
  then show ?case by simp
next
  case (3 c u cs)
  from "3.prems" have u: "py_isdigit u" and c: "py_isdigit c" and rest: "list_all py_isdigit (u # cs)"
    by simp_all
  from u have "u \<noteq> CHR ''_''" by (auto simp: py_isdigit_def)
  with "3.IH"(2) rest c show ?case by simp
qed

lemma integer_d_form_is_int_text_d:
  assumes "integer_d_form s"
  shows "int_text_d s"
proof -
  from assms have e: "endswith s ''d''" and ne: "butlast s \<noteq> []"
    and dg: "list_all py_isdigit (butlast s)"
    by (simp_all add: integer_d_form_def)
  from e obtain body where s: "s = body @ ''d''" using endswith_d by blast
  with ne dg have "digit_groups body" by (simp add: digits_are_groups)
  then have "int_text body"
    unfolding int_text_def by (intro exI [of _ "[]"] exI [of _ body]) simp
  with s show ?thesis unfolding int_text_d_def by blast
qed

text \<open>
  Claim C7, as the code has it. \<open>get_ttl_seconds\<close> gives 86400 for \<^verbatim>\<open>1d\<close> and 2592000 for
  \<^verbatim>\<open>30d\<close> and raises \<^verbatim>\<open>ValueError\<close> for \<^verbatim>\<open>7x\<close>. It raises \<^verbatim>\<open>ValueError\<close> for every period
  that is not a text accepted by \<^verbatim>\<open>int\<close> followed by \<^verbatim>\<open>d\<close>; such a text may have white
  space around the number, a sign, and underscores between digits, so that \<^verbatim>\<open> 7 d\<close> gives
  604800 and \<^verbatim>\<open> +1_0 d\<close> gives 864000. It has no default: a
  value it returns is 86400 times the integer that \<^verbatim>\<open>int\<close> reads before the \<^verbatim>\<open>d\<close>.
\<close>

theorem get_ttl_seconds_periods:
  "get_ttl_seconds ''1d'' = Inr 86400 \<and>
   get_ttl_seconds ''30d'' = Inr 2592000 \<and>
   get_ttl_seconds ''7x'' = Inl (ValueError ''Unsupported time period format: 7x'') \<and>
   get_ttl_seconds '' 7 d'' = Inr 604800 \<and>
   get_ttl_seconds '' +1_0 d'' = Inr 864000 \<and>
   (\<not> int_text_d s \<longrightarrow> (\<exists>m. get_ttl_seconds s = Inl (ValueError m))) \<and>
   (get_ttl_seconds s = Inr n \<longrightarrow>
      (\<exists>body days. s = body @ ''d'' \<and> py_int body = Some days \<and> n = days * 86400))"
proof -
  have t1: "get_ttl_seconds ''1d'' = Inr 86400"
    by (simp add: get_ttl_seconds_def endswith_def py_int_def py_strip_def py_isspace_def
        split_sign_def py_isdigit_def max_str_digits_def digit_value_def)
  have t2: "get_ttl_seconds ''30d'' = Inr 2592000"
    by (simp add: get_ttl_seconds_def endswith_def py_int_def py_strip_def py_isspace_def
        split_sign_def py_isdigit_def max_str_digits_def digit_value_def)
  have t3: "get_ttl_seconds ''7x'' = Inl (ValueError ''Unsupported time period format: 7x'')"
    by (simp add: get_ttl_seconds_def endswith_def)
  have t4: "\<exists>m. get_ttl_seconds s = Inl (ValueError m)" if nf: "\<not> int_text_d s"
  proof (cases "get_ttl_seconds s")
    case (Inl e)
    with get_ttl_seconds_Inl show ?thesis by blast
  next
    case (Inr n)
    from get_ttl_seconds_Inr [OF this] obtain body days
      where "s = body @ ''d''" "py_int body = Some days" by blast
    with py_int_form have "int_text_d s" unfolding int_text_d_def by blast
    with nf show ?thesis by simp
  qed
  have t5: "get_ttl_seconds '' 7 d'' = Inr 604800"
    by (simp add: get_ttl_seconds_def endswith_def py_int_def py_strip_def py_isspace_def
        split_sign_def py_isdigit_def max_str_digits_def digit_value_def)
  have t6: "get_ttl_seconds '' +1_0 d'' = Inr 864000"
    by (simp add: get_ttl_seconds_def endswith_def py_int_def py_strip_def py_isspace_def
        split_sign_def py_isdigit_def max_str_digits_def digit_value_def)
  from t1 t2 t3 t4 t5 t6 get_ttl_seconds_Inr show ?thesis by blast
qed

lemma not_form_7x: "\<not> int_text_d ''7x''"
proof
  assume "int_text_d ''7x''"
  then obtain body where "''7x'' = body @ ''d''" unfolding int_text_d_def by blast
  then have "last ''7x'' = last (body @ ''d'')" by simp
  then show False by simp
qed

theorem get_ttl_seconds_periods_witness:
  "\<not> int_text_d ''7x'' \<and> (\<exists>m. get_ttl_seconds ''7x'' = Inl (ValueError m)) \<and>
   get_ttl_seconds ''30d'' = Inr 2592000 \<and>
   (\<exists>body days. ''30d'' = body @ ''d'' \<and> py_int body = Some days \<and> (2592000::int) = days * 86400)"
  using get_ttl_seconds_periods [of "''7x''" 0] get_ttl_seconds_periods [of "''30d''" 2592000] not_form_7x
  by blast

text \<open>
  Claim C7 as stated fails: \<^verbatim>\<open> 7 d\<close> and \<^verbatim>\<open> +1_0 d\<close> are not an integer followed by \<^verbatim>\<open>d\<close>,
  and \<open>get_ttl_seconds\<close> returns 604800 and 864000 for them.
\<close>

theorem period_form_counterexample:
  "\<not> integer_d_form '' 7 d'' \<and> get_ttl_seconds '' 7 d'' = Inr 604800 \<and>
   \<not> integer_d_form '' +1_0 d'' \<and> get_ttl_seconds '' +1_0 d'' = Inr 864000"
  by (simp add: integer_d_form_def get_ttl_seconds_def endswith_def py_int_def py_strip_def
      py_isspace_def split_sign_def py_isdigit_def max_str_digits_def digit_value_def)

text \<open>
  The integer before the \<^verbatim>\<open>d\<close> is read by \<^verbatim>\<open>int\<close>, which takes a sign, surrounding white
  space and underscores between digits; the number of days may be zero or negative.
\<close>

lemma get_ttl_seconds_literals:
  "get_ttl_seconds ''-1d'' = Inr (- 86400)"
  "get_ttl_seconds '' +1_0 d'' = Inr 864000"
  "get_ttl_seconds ''0d'' = Inr 0"
  "get_ttl_seconds ''d'' = Inl (ValueError ''invalid literal for int() with base 10: '')"
  "get_ttl_seconds ''1_d'' = Inl (ValueError ''invalid literal for int() with base 10: 1_'')"
  "get_ttl_seconds ''1.5d'' = Inl (ValueError ''invalid literal for int() with base 10: 1.5'')"
  by (simp_all add: get_ttl_seconds_def endswith_def py_int_def py_strip_def py_isspace_def
      split_sign_def py_isdigit_def max_str_digits_def digit_value_def)

subsection \<open>The loops of the admission filter\<close>

lemma collect_append:
  "collect_provider_configs cfg glp (xs @ ys) acc =
     (case collect_provider_configs cfg glp xs acc of
        Inl e \<Rightarrow> Inl e
      | Inr acc' \<Rightarrow> collect_provider_configs cfg glp ys acc')"
  by (induction xs arbitrary: acc) (auto split: sum.splits)

lemma collect_first_error:
  assumes "\<forall>d\<in>set pre. \<exists>p. get_llm_provider_for_deployment glp d = Inr p"
    and "get_llm_provider_for_deployment glp d = Inl e"
  shows "collect_provider_configs cfg glp (pre @ d # post) acc = Inl e"
  using assms by (induction pre arbitrary: acc) auto

lemma collect_total:
  assumes "\<forall>d\<in>set ds. \<exists>p. get_llm_provider_for_deployment glp d = Inr p"
  shows "\<exists>pcs. collect_provider_configs cfg glp ds acc = Inr pcs"
  using assms by (induction ds arbitrary: acc) auto

lemma collect_Inr_all:
  assumes "collect_provider_configs cfg glp ds acc = Inr pcs"
  shows "\<forall>d\<in>set ds. \<exists>p. get_llm_provider_for_deployment glp d = Inr p"
  using assms by (induction ds arbitrary: acc) (auto split: sum.splits)

lemma collect_distinct:
  assumes "collect_provider_configs cfg glp ds acc = Inr pcs" and "distinct (map fst acc)"
  shows "distinct (map fst pcs)"
  using assms
  by (induction ds arbitrary: acc) (auto split: sum.splits simp: distinct_update)

lemma collect_map_of:
  assumes "collect_provider_configs cfg glp ds acc = Inr pcs"
  shows "map_of pcs p =
     (if \<exists>d\<in>set ds. get_llm_provider_for_deployment glp d = Inr p then Some (cfg p)
      else map_of acc p)"
  using assms
proof (induction ds arbitrary: acc)
  case Nil
  then show ?case by simp
next
  case (Cons d ds)
  from Cons.prems obtain q where q: "get_llm_provider_for_deployment glp d = Inr q"
    and run: "collect_provider_configs cfg glp ds
                (AList.update q (get_budget_config_for_provider cfg q) acc) = Inr pcs"
    by (auto split: sum.splits)
  from Cons.IH [OF run] q show ?case
    by (auto simp: update_conv' get_budget_config_for_provider_def)
qed

lemma provider_configs_map_of:
  "map_of (provider_configs pcs) p = (case map_of pcs p of Some (Some c) \<Rightarrow> Some c | _ \<Rightarrow> None)"
  if "distinct (map fst pcs)"
  using that
proof (induction pcs)
  case Nil
  then show ?case by (simp add: provider_configs_def List.map_filter_simps)
next
  case (Cons x pcs)
  obtain q c where x: "x = (q, c)" by (cases x)
  from Cons.prems x have nq: "q \<notin> fst ` set pcs" by simp
  then have none: "map_of pcs q = None" by (simp add: map_of_eq_None_iff)
  from Cons have IH: "map_of (provider_configs pcs) p =
      (case map_of pcs p of Some (Some c) \<Rightarrow> Some c | _ \<Rightarrow> None)" by simp
  show ?case
  proof (cases c)
    case None
    with x have "provider_configs (x # pcs) = provider_configs pcs"
      by (simp add: provider_configs_def List.map_filter_simps)
    with IH x None none show ?thesis by (auto split: option.splits)
  next
    case (Some b)
    with x have "provider_configs (x # pcs) = (q, b) # provider_configs pcs"
      by (simp add: provider_configs_def List.map_filter_simps)
    with IH x Some show ?thesis by (auto split: option.splits)
  qed
qed

lemma provider_configs_fst:
  "map fst (provider_configs pcs) = map fst (filter (\<lambda>(p, c). c \<noteq> None) pcs)"
  by (induction pcs) (auto simp: provider_configs_def List.map_filter_simps split: option.splits)

lemma provider_configs_distinct:
  "distinct (map fst pcs) \<Longrightarrow> distinct (map fst (provider_configs pcs))"
  unfolding provider_configs_fst by (simp add: distinct_map_filter)

lemma build_spend_map_ok:
  "(\<exists>m'. build_spend_map cs idx ps m = Inr m') \<longleftrightarrow> (ps = [] \<or> idx + length ps \<le> length cs)"
  by (induction ps arbitrary: idx m) auto

lemma build_spend_map_error:
  "build_spend_map cs idx ps m = Inl e \<Longrightarrow> e = IndexError ''list index out of range''"
  by (induction ps arbitrary: idx m) (auto split: if_splits)

lemma build_spend_map_other:
  assumes "build_spend_map cs idx ps m = Inr m'" and "p \<notin> set ps"
  shows "map_of m' p = map_of m p"
  using assms
  by (induction ps arbitrary: idx m) (auto split: if_splits simp: update_conv')

lemma build_spend_map_nth:
  assumes "build_spend_map cs idx ps m = Inr m'" and "distinct ps" and "i < length ps"
  shows "map_of m' (ps ! i) = Some (float_or_zero (cs ! (idx + i)))"
  using assms
proof (induction ps arbitrary: idx m i)
  case Nil
  then show ?case by simp
next
  case (Cons q ps)
  from Cons.prems(1) have run: "build_spend_map cs (Suc idx) ps
       (AList.update q (float_or_zero (cs ! idx)) m) = Inr m'"
    by (simp split: if_splits)
  show ?case
  proof (cases i)
    case 0
    from Cons.prems(2) have "q \<notin> set ps" by simp
    from build_spend_map_other [OF run this] 0 show ?thesis by (simp add: update_conv')
  next
    case (Suc j)
    with Cons.prems have "distinct ps" "j < length ps" by simp_all
    from Cons.IH [OF run this] Suc show ?thesis by simp
  qed
qed

lemma filter_deployments_eq:
  assumes "\<forall>d\<in>set ds. \<exists>p. get_llm_provider_for_deployment glp d = Inr p"
  shows "filter_deployments glp pc m ds pot = Inr (pot @ filter (eligible glp pc m) ds)"
  using assms
proof (induction ds arbitrary: pot)
  case Nil
  then show ?case by simp
next
  case (Cons d ds)
  then obtain p where p: "get_llm_provider_for_deployment glp d = Inr p" by auto
  from Cons have IH: "\<And>pot. filter_deployments glp pc m ds pot =
      Inr (pot @ filter (eligible glp pc m) ds)" by simp
  have e: "eligible glp pc m d =
      (case map_of pc p of None \<Rightarrow> False | Some b \<Rightarrow> spend_of m p < budget_limit b)"
    using p by (simp add: eligible_def)
  show ?case
    using p by (simp add: IH e not_le split: option.splits)
qed

lemma filter_deployments_error:
  assumes "\<forall>d\<in>set pre. \<exists>p. get_llm_provider_for_deployment glp d = Inr p"
    and "get_llm_provider_for_deployment glp d = Inl e"
  shows "filter_deployments glp pc m (pre @ d # post) pot = Inl e"
  using assms by (induction pre arbitrary: pot) (auto split: option.splits)

subsection \<open>Eligibility\<close>

lemma read_provider_spend_Inr:
  assumes "read_provider_spend cfg glp cache healthy = (calls, Inr (pc, m))"
  shows "\<exists>pcs answer.
           collect_provider_configs cfg glp healthy [] = Inr pcs \<and>
           pc = provider_configs pcs \<and>
           calls = [BatchGet (cache_keys pc)] \<and>
           cache (cache_keys pc) = Inr answer \<and>
           build_spend_map (current_spends answer (length pc)) 0 (map fst pc) [] = Inr m"
  using assms
  by (auto simp: read_provider_spend_def Let_def split: sum.splits)

lemma read_provider_spend_calls:
  "fst (read_provider_spend cfg glp cache healthy) =
     (case collect_provider_configs cfg glp healthy [] of
        Inl e \<Rightarrow> []
      | Inr pcs \<Rightarrow> [BatchGet (cache_keys (provider_configs pcs))])"
  by (simp add: read_provider_spend_def Let_def split: sum.splits)

lemma calls_same:
  "fst (potential_deployments cfg glp cache healthy) = fst (read_provider_spend cfg glp cache healthy)"
  "fst (async_get_available_deployments cfg glp cache rnd healthy) =
     fst (read_provider_spend cfg glp cache healthy)"
  by (auto simp: potential_deployments_def async_get_available_deployments_def
      split: prod.splits sum.splits)

lemma provider_configs_of_collect:
  assumes "collect_provider_configs cfg glp healthy [] = Inr pcs"
  shows "map_of (provider_configs pcs) p =
     (if \<exists>d\<in>set healthy. get_llm_provider_for_deployment glp d = Inr p then cfg p else None)"
proof -
  from collect_distinct [OF assms] have d: "distinct (map fst pcs)" by simp
  from collect_map_of [OF assms, of p] provider_configs_map_of [OF d, of p]
  show ?thesis by (auto split: option.splits)
qed

lemma potential_deployments_eq:
  assumes "read_provider_spend cfg glp cache healthy = (calls, Inr (pc, m))"
  shows "potential_deployments cfg glp cache healthy =
           (calls, Inr (filter (eligible glp pc m) healthy))"
proof -
  from read_provider_spend_Inr [OF assms] obtain pcs
    where "collect_provider_configs cfg glp healthy [] = Inr pcs" by blast
  from collect_Inr_all [OF this] filter_deployments_eq [of healthy glp pc m "[]"]
  have "filter_deployments glp pc m healthy [] = Inr (filter (eligible glp pc m) healthy)"
    by simp
  with assms show ?thesis by (simp add: potential_deployments_def)
qed

lemma potential_deployments_Inr:
  assumes "potential_deployments cfg glp cache healthy = (calls, Inr pot)"
  shows "\<exists>pc m. read_provider_spend cfg glp cache healthy = (calls, Inr (pc, m)) \<and>
                pot = filter (eligible glp pc m) healthy"
proof -
  from assms obtain pc m where r: "read_provider_spend cfg glp cache healthy = (calls, Inr (pc, m))"
    by (auto simp: potential_deployments_def split: prod.splits sum.splits)
  from potential_deployments_eq [OF r] assms r show ?thesis by auto
qed

lemma async_get_Inr:
  assumes "async_get_available_deployments cfg glp cache rnd healthy = (calls, Inr r)"
  shows "\<exists>pot. potential_deployments cfg glp cache healthy = (calls, Inr pot) \<and>
               r = random_choice rnd pot"
  using assms
  by (auto simp: async_get_available_deployments_def split: prod.splits sum.splits)

lemma random_choice_Some: "random_choice rnd xs = Some x \<Longrightarrow> x \<in> set xs"
  by (auto simp: random_choice_def split: if_splits)

lemma unbudgeted_not_eligible:
  assumes "read_provider_spend cfg glp cache healthy = (calls, Inr (pc, m))"
    and "get_llm_provider_for_deployment glp d = Inr p" and "cfg p = None"
  shows "\<not> eligible glp pc m d"
proof -
  from read_provider_spend_Inr [OF assms(1)] obtain pcs
    where c: "collect_provider_configs cfg glp healthy [] = Inr pcs" and pc: "pc = provider_configs pcs"
    by blast
  from provider_configs_of_collect [OF c, of p] assms(3) pc have "map_of pc p = None" by simp
  with assms(2) show ?thesis by (simp add: eligible_def)
qed

lemma budgeted_eligible:
  assumes "read_provider_spend cfg glp cache healthy = (calls, Inr (pc, m))"
    and "d \<in> set healthy"
    and "get_llm_provider_for_deployment glp d = Inr p" and "cfg p = Some b"
  shows "eligible glp pc m d \<longleftrightarrow> spend_of m p < budget_limit b"
proof -
  from read_provider_spend_Inr [OF assms(1)] obtain pcs
    where c: "collect_provider_configs cfg glp healthy [] = Inr pcs" and pc: "pc = provider_configs pcs"
    by blast
  from provider_configs_of_collect [OF c, of p] assms(2,3,4) pc have "map_of pc p = Some b" by auto
  with assms(3) show ?thesis by (simp add: eligible_def)
qed

lemmas example_defs =
  example_config_def example_provider_def example_deployment_def example_ledger_def
  answer_with_def increment_accepted_def example_event_def

lemmas filter_defs =
  read_provider_spend_def potential_deployments_def async_get_available_deployments_def
  provider_configs_def cache_keys_def current_spends_def float_or_zero_def spend_of_def
  random_choice_def get_llm_provider_for_deployment_def get_budget_config_for_provider_def
  ledger_reader_def batchGetSpend_def spend_key_def List.map_filter_simps Let_def

lemma example_read:
  "read_provider_spend example_config example_provider (ledger_reader (example_ledger 40 50))
     [example_deployment ''openai/gpt-4'', example_deployment ''openai/gpt-3.5'',
      example_deployment ''anthropic/claude''] =
   ([BatchGet [''provider_spend:openai:1d'', ''provider_spend:anthropic:1d'']],
    Inr ([(''openai'', \<lparr>time_period = ''1d'', budget_limit = 100\<rparr>),
          (''anthropic'', \<lparr>time_period = ''1d'', budget_limit = 50\<rparr>)],
         [(''openai'', 40), (''anthropic'', 50)]))"
  by (simp add: filter_defs example_defs)

text \<open>
  Claim C1, as the code has it. A deployment whose provider has no budget configuration
  is passed over by the second loop (\<^verbatim>\<open>if not budget_config: continue\<close>): it is never in
  \<^verbatim>\<open>potential_deployments\<close> and never the deployment returned, whatever the cache answers.
\<close>

theorem unbudgeted_deployment_excluded:
  assumes "get_llm_provider_for_deployment glp d = Inr p"
    and "get_budget_config_for_provider cfg p = None"
  shows "snd (async_get_available_deployments cfg glp cache rnd healthy) \<noteq> Inr (Some d) \<and>
         (\<forall>calls potential.
            potential_deployments cfg glp cache healthy = (calls, Inr potential) \<longrightarrow>
            d \<notin> set potential)"
proof -
  from assms(2) have none: "cfg p = None" by (simp add: get_budget_config_for_provider_def)
  have a: "d \<notin> set potential"
    if "potential_deployments cfg glp cache healthy = (calls, Inr potential)" for calls potential
  proof -
    from potential_deployments_Inr [OF that] obtain pc m
      where r: "read_provider_spend cfg glp cache healthy = (calls, Inr (pc, m))"
        and pot: "potential = filter (eligible glp pc m) healthy" by blast
    from unbudgeted_not_eligible [OF r assms(1) none] pot show ?thesis by simp
  qed
  have "snd (async_get_available_deployments cfg glp cache rnd healthy) \<noteq> Inr (Some d)"
  proof
    assume s: "snd (async_get_available_deployments cfg glp cache rnd healthy) = Inr (Some d)"
    then obtain calls where
      "async_get_available_deployments cfg glp cache rnd healthy = (calls, Inr (Some d))"
      by (cases "async_get_available_deployments cfg glp cache rnd healthy") simp
    from async_get_Inr [OF this] obtain pot
      where p: "potential_deployments cfg glp cache healthy = (calls, Inr pot)"
        and "Some d = random_choice rnd pot" by blast
    then have "d \<in> set pot" using random_choice_Some [of rnd pot d] by simp
    with a [OF p] show False by simp
  qed
  with a show ?thesis by blast
qed

text \<open>
  Claim C1 as stated fails: \<^verbatim>\<open>azure\<close> has no budget configuration, and its deployment is
  left out of \<^verbatim>\<open>potential_deployments\<close>; alone among the candidates it gives \<^verbatim>\<open>None\<close>.
\<close>

theorem unbudgeted_deployment_counterexample:
  "get_llm_provider_for_deployment example_provider (example_deployment ''azure/gpt-4'') = Inr ''azure'' \<and>
   get_budget_config_for_provider example_config ''azure'' = None \<and>
   potential_deployments example_config example_provider (ledger_reader (example_ledger 40 50))
     [example_deployment ''azure/gpt-4'', example_deployment ''openai/gpt-4''] =
   ([BatchGet [''provider_spend:openai:1d'']], Inr [example_deployment ''openai/gpt-4'']) \<and>
   example_deployment ''azure/gpt-4'' \<notin> set [example_deployment ''openai/gpt-4''] \<and>
   async_get_available_deployments example_config example_provider (answer_with (Inr None)) 0
     [example_deployment ''azure/gpt-4''] = ([BatchGet []], Inr None)"
  by (simp add: filter_defs example_defs)

theorem unbudgeted_deployment_excluded_witness:
  "get_llm_provider_for_deployment example_provider (example_deployment ''azure/gpt-4'') = Inr ''azure'' \<and>
   get_budget_config_for_provider example_config ''azure'' = None \<and>
   snd (async_get_available_deployments example_config example_provider
          (ledger_reader (example_ledger 40 50)) 0
          [example_deployment ''azure/gpt-4'', example_deployment ''openai/gpt-4''])
     \<noteq> Inr (Some (example_deployment ''azure/gpt-4''))"
proof -
  have h1: "get_llm_provider_for_deployment example_provider (example_deployment ''azure/gpt-4'')
              = Inr ''azure''"
    by (simp add: filter_defs example_defs)
  have h2: "get_budget_config_for_provider example_config ''azure'' = None"
    by (simp add: filter_defs example_defs)
  from unbudgeted_deployment_excluded [OF h1 h2] h1 h2 show ?thesis by blast
qed

text \<open>
  Claim C2. In a run that reaches the second loop, a candidate whose provider has a budget
  configuration is in \<^verbatim>\<open>potential_deployments\<close> exactly when the provider's current spend
  is strictly below the limit; with spend equal to the limit it is left out.
\<close>

theorem budgeted_deployment_eligible_iff:
  assumes "read_provider_spend cfg glp cache healthy = (calls, Inr (pc, m))"
    and "d \<in> set healthy"
    and "get_llm_provider_for_deployment glp d = Inr p"
    and "get_budget_config_for_provider cfg p = Some b"
  shows "\<exists>potential.
           potential_deployments cfg glp cache healthy = (calls, Inr potential) \<and>
           (d \<in> set potential \<longleftrightarrow> spend_of m p < budget_limit b) \<and>
           (spend_of m p = budget_limit b \<longrightarrow> d \<notin> set potential)"
proof -
  from assms(4) have b: "cfg p = Some b" by (simp add: get_budget_config_for_provider_def)
  from budgeted_eligible [OF assms(1,2,3) b] potential_deployments_eq [OF assms(1)] assms(2)
  show ?thesis by auto
qed

lemma example_read_over:
  "read_provider_spend example_config example_provider (ledger_reader (example_ledger 100 50))
     [example_deployment ''openai/gpt-4'', example_deployment ''anthropic/claude''] =
   ([BatchGet [''provider_spend:openai:1d'', ''provider_spend:anthropic:1d'']],
    Inr ([(''openai'', \<lparr>time_period = ''1d'', budget_limit = 100\<rparr>),
          (''anthropic'', \<lparr>time_period = ''1d'', budget_limit = 50\<rparr>)],
         [(''openai'', 100), (''anthropic'', 50)]))"
  by (simp add: filter_defs example_defs)

theorem budgeted_deployment_eligible_iff_witness:
  "example_deployment ''anthropic/claude'' \<in>
     set [example_deployment ''openai/gpt-4'', example_deployment ''openai/gpt-3.5'',
          example_deployment ''anthropic/claude''] \<and>
   get_llm_provider_for_deployment example_provider (example_deployment ''anthropic/claude'')
     = Inr ''anthropic'' \<and>
   get_budget_config_for_provider example_config ''anthropic''
     = Some \<lparr>time_period = ''1d'', budget_limit = 50\<rparr> \<and>
   spend_of [(''openai'', 40), (''anthropic'', 50)] ''anthropic'' = 50 \<and>
   (\<exists>potential.
      potential_deployments example_config example_provider (ledger_reader (example_ledger 40 50))
        [example_deployment ''openai/gpt-4'', example_deployment ''openai/gpt-3.5'',
         example_deployment ''anthropic/claude''] =
      ([BatchGet [''provider_spend:openai:1d'', ''provider_spend:anthropic:1d'']], Inr potential) \<and>
      example_deployment ''anthropic/claude'' \<notin> set potential)"
proof -
  have h2: "example_deployment ''anthropic/claude'' \<in>
     set [example_deployment ''openai/gpt-4'', example_deployment ''openai/gpt-3.5'',
          example_deployment ''anthropic/claude'']" by simp
  have h3: "get_llm_provider_for_deployment example_provider (example_deployment ''anthropic/claude'')
     = Inr ''anthropic''" by (simp add: filter_defs example_defs)
  have h4: "get_budget_config_for_provider example_config ''anthropic''
     = Some \<lparr>time_period = ''1d'', budget_limit = 50\<rparr>" by (simp add: filter_defs example_defs)
  have h5: "spend_of [(''openai'', 40), (''anthropic'', 50)] ''anthropic'' = 50"
    by (simp add: spend_of_def)
  from budgeted_deployment_eligible_iff [OF example_read h2 h3 h4] h5
  have "\<exists>potential.
      potential_deployments example_config example_provider (ledger_reader (example_ledger 40 50))
        [example_deployment ''openai/gpt-4'', example_deployment ''openai/gpt-3.5'',
         example_deployment ''anthropic/claude''] =
      ([BatchGet [''provider_spend:openai:1d'', ''provider_spend:anthropic:1d'']], Inr potential) \<and>
      example_deployment ''anthropic/claude'' \<notin> set potential"
    by simp
  with h2 h3 h4 h5 show ?thesis by blast
qed

text \<open>
  Claim C8. When \<^verbatim>\<open>potential_deployments\<close> is empty the function returns \<^verbatim>\<open>None\<close>, as a
  value and not as an exception, after the one batch read it has made; this is so in
  particular when every candidate's budgeted provider has spent its limit or more.
\<close>

theorem no_eligible_deployment_gives_None:
  "(potential_deployments cfg glp cache healthy = (calls, Inr []) \<longrightarrow>
      async_get_available_deployments cfg glp cache rnd healthy = (calls, Inr None) \<and>
      (\<exists>keys. calls = [BatchGet keys])) \<and>
   (read_provider_spend cfg glp cache healthy = (calls, Inr (pc, m)) \<and>
    (\<forall>d\<in>set healthy. \<forall>p b.
        get_llm_provider_for_deployment glp d = Inr p \<and>
        get_budget_config_for_provider cfg p = Some b \<longrightarrow> budget_limit b \<le> spend_of m p) \<longrightarrow>
      async_get_available_deployments cfg glp cache rnd healthy = (calls, Inr None))"
proof -
  have a: "async_get_available_deployments cfg glp cache rnd healthy = (calls, Inr None)"
    if "potential_deployments cfg glp cache healthy = (calls, Inr [])"
    using that by (simp add: async_get_available_deployments_def random_choice_def)
  have b: "async_get_available_deployments cfg glp cache rnd healthy = (calls, Inr None)"
    if r: "read_provider_spend cfg glp cache healthy = (calls, Inr (pc, m))"
      and over: "\<forall>d\<in>set healthy. \<forall>p b.
        get_llm_provider_for_deployment glp d = Inr p \<and>
        get_budget_config_for_provider cfg p = Some b \<longrightarrow> budget_limit b \<le> spend_of m p"
  proof -
    from read_provider_spend_Inr [OF r] obtain pcs
      where c: "collect_provider_configs cfg glp healthy [] = Inr pcs" by blast
    have "\<not> eligible glp pc m d" if d: "d \<in> set healthy" for d
    proof -
      from collect_Inr_all [OF c] d obtain p
        where p: "get_llm_provider_for_deployment glp d = Inr p" by blast
      show ?thesis
      proof (cases "cfg p")
        case None
        from unbudgeted_not_eligible [OF r p None] show ?thesis .
      next
        case (Some b)
        with over d p have "budget_limit b \<le> spend_of m p"
          by (simp add: get_budget_config_for_provider_def)
        with budgeted_eligible [OF r d p Some] show ?thesis by simp
      qed
    qed
    then have "filter (eligible glp pc m) healthy = []" by (simp add: filter_empty_conv)
    with potential_deployments_eq [OF r]
    have "potential_deployments cfg glp cache healthy = (calls, Inr [])" by simp
    from a [OF this] show ?thesis .
  qed
  have c: "\<exists>keys. calls = [BatchGet keys]"
    if "potential_deployments cfg glp cache healthy = (calls, Inr [])"
  proof -
    from potential_deployments_Inr [OF that] obtain pc' m'
      where "read_provider_spend cfg glp cache healthy = (calls, Inr (pc', m'))" by blast
    from read_provider_spend_Inr [OF this] show ?thesis by blast
  qed
  from a b c show ?thesis by blast
qed

theorem no_eligible_deployment_gives_None_witness:
  "read_provider_spend example_config example_provider (ledger_reader (example_ledger 100 50))
     [example_deployment ''openai/gpt-4'', example_deployment ''anthropic/claude''] =
   ([BatchGet [''provider_spend:openai:1d'', ''provider_spend:anthropic:1d'']],
    Inr ([(''openai'', \<lparr>time_period = ''1d'', budget_limit = 100\<rparr>),
          (''anthropic'', \<lparr>time_period = ''1d'', budget_limit = 50\<rparr>)],
         [(''openai'', 100), (''anthropic'', 50)])) \<and>
   async_get_available_deployments example_config example_provider
     (ledger_reader (example_ledger 100 50)) 7
     [example_deployment ''openai/gpt-4'', example_deployment ''anthropic/claude''] =
   ([BatchGet [''provider_spend:openai:1d'', ''provider_spend:anthropic:1d'']], Inr None)"
proof -
  have over: "\<forall>d\<in>set [example_deployment ''openai/gpt-4'', example_deployment ''anthropic/claude''].
     \<forall>p b. get_llm_provider_for_deployment example_provider d = Inr p \<and>
        get_budget_config_for_provider example_config p = Some b \<longrightarrow>
        budget_limit b \<le> spend_of [(''openai'', 100), (''anthropic'', 50)] p"
    by (auto simp: filter_defs example_defs)
  from no_eligible_deployment_gives_None
    [of example_config example_provider "ledger_reader (example_ledger 100 50)"
        "[example_deployment ''openai/gpt-4'', example_deployment ''anthropic/claude'']"
        "[BatchGet [''provider_spend:openai:1d'', ''provider_spend:anthropic:1d'']]" 7
        "[(''openai'', \<lparr>time_period = ''1d'', budget_limit = 100\<rparr>),
          (''anthropic'', \<lparr>time_period = ''1d'', budget_limit = 50\<rparr>)]"
        "[(''openai'', 100), (''anthropic'', 50)]"]
    example_read_over over
  show ?thesis by blast
qed

subsection \<open>The spend recorder\<close>

lemmas recorder_defs =
  async_log_success_event_def spend_increment_def get_budget_config_for_provider_def
  spend_key_def Let_def

lemma get_ttl_seconds_1d: "get_ttl_seconds ''1d'' = Inr 86400"
  by (simp add: get_ttl_seconds_def endswith_def py_int_def py_strip_def py_isspace_def
      split_sign_def py_isdigit_def max_str_digits_def digit_value_def)

text \<open>
  Claim C3, as the code has it. For a completion event whose provider has no budget
  configuration the recorder raises \<^verbatim>\<open>ValueError\<close> (lines 139 to 142); it issues no
  increment, so the cost is not tracked.
\<close>

theorem unbudgeted_provider_not_recorded:
  assumes "standard_logging_object kwargs = Some payload"
    and "logged_litellm_params kwargs = Some params"
    and "custom_llm_provider params = Some provider"
    and "get_budget_config_for_provider cfg provider = None"
  shows "async_log_success_event cfg async_increment_cache kwargs =
           ([], Inl (ValueError (''No budget config found for provider '' @ provider)))"
  using assms by (simp add: async_log_success_event_def spend_increment_def)

theorem unbudgeted_provider_not_recorded_witness:
  "standard_logging_object (example_event (Some 12.5) (Some ''azure'')) =
     Some \<lparr>response_cost = Some 12.5\<rparr> \<and>
   logged_litellm_params (example_event (Some 12.5) (Some ''azure'')) =
     Some \<lparr>custom_llm_provider = Some ''azure''\<rparr> \<and>
   get_budget_config_for_provider example_config ''azure'' = None \<and>
   async_log_success_event example_config increment_accepted (example_event (Some 12.5) (Some ''azure''))
     = ([], Inl (ValueError ''No budget config found for provider azure''))"
proof -
  have h1: "standard_logging_object (example_event (Some 12.5) (Some ''azure'')) =
     Some \<lparr>response_cost = Some 12.5\<rparr>" by (simp add: example_event_def)
  have h2: "logged_litellm_params (example_event (Some 12.5) (Some ''azure'')) =
     Some \<lparr>custom_llm_provider = Some ''azure''\<rparr>" by (simp add: example_event_def)
  have h3: "custom_llm_provider \<lparr>custom_llm_provider = Some ''azure''\<rparr> = Some ''azure''" by simp
  have h4: "get_budget_config_for_provider example_config ''azure'' = None"
    by (simp add: get_budget_config_for_provider_def example_config_def)
  from unbudgeted_provider_not_recorded [OF h1 h2 h3 h4, of increment_accepted] h1 h2 h4
  show ?thesis by simp
qed

text \<open>
  Claim C3 as stated fails: the event of the unconfigured provider \<^verbatim>\<open>azure\<close> makes the
  recorder raise.
\<close>

theorem unbudgeted_provider_counterexample:
  "get_budget_config_for_provider example_config ''azure'' = None \<and>
   snd (async_log_success_event example_config increment_accepted
          (example_event (Some 12.5) (Some ''azure''))) =
     Inl (ValueError ''No budget config found for provider azure'')"
  by (simp add: recorder_defs example_config_def example_event_def)

lemma get_ttl_seconds_7x:
  "get_ttl_seconds ''7x'' = Inl (ValueError ''Unsupported time period format: 7x'')"
  by (simp add: get_ttl_seconds_def endswith_def)

text \<open>
  Claim C4, as the code has it. The recorder raises \<^verbatim>\<open>ValueError\<close> when the standard logging
  payload is missing and when the provider is missing, and issues no increment then. A
  payload without a cost is not an error: \<^verbatim>\<open>.get("response_cost", 0)\<close> takes the cost to
  be 0, and the recorder goes on as it does for a cost of 0. For a provider with a budget
  configuration it then issues the increment by 0 when \<open>get_ttl_seconds\<close> accepts the
  period, and raises the exception of \<open>get_ttl_seconds\<close>, issuing nothing, when it does not.
\<close>

theorem missing_event_fields:
  "(standard_logging_object kwargs = None \<longrightarrow>
      async_log_success_event cfg async_increment_cache kwargs =
        ([], Inl (ValueError ''standard_logging_payload is required''))) \<and>
   (standard_logging_object kwargs = Some payload \<and>
    (logged_litellm_params kwargs = None \<or>
     (\<exists>params. logged_litellm_params kwargs = Some params \<and> custom_llm_provider params = None)) \<longrightarrow>
      async_log_success_event cfg async_increment_cache kwargs =
        ([], Inl (ValueError ''custom_llm_provider is required''))) \<and>
   (standard_logging_object kwargs = Some payload \<and> response_cost payload = None \<longrightarrow>
      async_log_success_event cfg async_increment_cache kwargs =
        async_log_success_event cfg async_increment_cache
          (kwargs\<lparr>standard_logging_object := Some (payload\<lparr>response_cost := Some 0\<rparr>)\<rparr>)) \<and>
   (standard_logging_object kwargs = Some payload \<and> response_cost payload = None \<and>
    logged_litellm_params kwargs = Some params \<and> custom_llm_provider params = Some provider \<and>
    get_budget_config_for_provider cfg provider = Some budget_config \<longrightarrow>
      (\<forall>ttl_seconds. get_ttl_seconds (time_period budget_config) = Inr ttl_seconds \<longrightarrow>
         async_log_success_event cfg async_increment_cache kwargs =
           ([Increment (spend_key provider (time_period budget_config)) 0 ttl_seconds],
            async_increment_cache
              (Increment (spend_key provider (time_period budget_config)) 0 ttl_seconds))) \<and>
      (\<forall>e. get_ttl_seconds (time_period budget_config) = Inl e \<longrightarrow>
         async_log_success_event cfg async_increment_cache kwargs = ([], Inl e)))"
  by (auto simp: async_log_success_event_def spend_increment_def)

theorem missing_event_fields_witness:
  "async_log_success_event example_config increment_accepted
     \<lparr>standard_logging_object = None,
      logged_litellm_params = Some \<lparr>custom_llm_provider = Some ''openai''\<rparr>\<rparr> =
     ([], Inl (ValueError ''standard_logging_payload is required'')) \<and>
   async_log_success_event example_config increment_accepted (example_event (Some 12.5) None) =
     ([], Inl (ValueError ''custom_llm_provider is required'')) \<and>
   async_log_success_event example_config increment_accepted (example_event None (Some ''openai'')) =
     ([Increment ''provider_spend:openai:1d'' 0 86400], Inr ()) \<and>
   async_log_success_event
     (example_config(''azure'' \<mapsto> \<lparr>time_period = ''7x'', budget_limit = 10\<rparr>))
     increment_accepted (example_event None (Some ''azure'')) =
     ([], Inl (ValueError ''Unsupported time period format: 7x''))"
proof -
  let ?nopayload = "\<lparr>standard_logging_object = None,
      logged_litellm_params = Some \<lparr>custom_llm_provider = Some ''openai''\<rparr>\<rparr>"
  let ?b = "\<lparr>time_period = ''1d'', budget_limit = 100\<rparr>"
  let ?bad = "\<lparr>time_period = ''7x'', budget_limit = 10\<rparr>"
  let ?cfg' = "example_config(''azure'' \<mapsto> ?bad)"
  have a: "standard_logging_object ?nopayload = None" by simp
  have b: "standard_logging_object (example_event (Some 12.5) None) = Some \<lparr>response_cost = Some 12.5\<rparr> \<and>
    (\<exists>params. logged_litellm_params (example_event (Some 12.5) None) = Some params \<and>
       custom_llm_provider params = None)"
    by (simp add: example_event_def)
  have c: "standard_logging_object (example_event None (Some ''openai'')) = Some \<lparr>response_cost = None\<rparr> \<and>
    response_cost \<lparr>response_cost = None\<rparr> = None \<and>
    logged_litellm_params (example_event None (Some ''openai'')) =
      Some \<lparr>custom_llm_provider = Some ''openai''\<rparr> \<and>
    custom_llm_provider \<lparr>custom_llm_provider = Some ''openai''\<rparr> = Some ''openai'' \<and>
    get_budget_config_for_provider example_config ''openai'' = Some ?b"
    by (simp add: example_event_def get_budget_config_for_provider_def example_config_def)
  have ct: "get_ttl_seconds (time_period ?b) = Inr 86400" by (simp add: get_ttl_seconds_1d)
  have d: "standard_logging_object (example_event None (Some ''azure'')) = Some \<lparr>response_cost = None\<rparr> \<and>
    response_cost \<lparr>response_cost = None\<rparr> = None \<and>
    logged_litellm_params (example_event None (Some ''azure'')) =
      Some \<lparr>custom_llm_provider = Some ''azure''\<rparr> \<and>
    custom_llm_provider \<lparr>custom_llm_provider = Some ''azure''\<rparr> = Some ''azure'' \<and>
    get_budget_config_for_provider ?cfg' ''azure'' = Some ?bad"
    by (simp add: example_event_def get_budget_config_for_provider_def)
  have dt: "get_ttl_seconds (time_period ?bad) = Inl (ValueError ''Unsupported time period format: 7x'')"
    by (simp add: get_ttl_seconds_7x)
  from missing_event_fields [of ?nopayload example_config increment_accepted] a
  have r1: "async_log_success_event example_config increment_accepted ?nopayload =
     ([], Inl (ValueError ''standard_logging_payload is required''))" by blast
  from missing_event_fields [of "example_event (Some 12.5) None" example_config increment_accepted
      "\<lparr>response_cost = Some 12.5\<rparr>"] b
  have r2: "async_log_success_event example_config increment_accepted (example_event (Some 12.5) None) =
     ([], Inl (ValueError ''custom_llm_provider is required''))" by blast
  from missing_event_fields [of "example_event None (Some ''openai'')" example_config
      increment_accepted "\<lparr>response_cost = None\<rparr>" "\<lparr>custom_llm_provider = Some ''openai''\<rparr>"
      "''openai''" ?b] c ct
  have "async_log_success_event example_config increment_accepted (example_event None (Some ''openai'')) =
     ([Increment (spend_key ''openai'' (time_period ?b)) 0 86400],
       increment_accepted (Increment (spend_key ''openai'' (time_period ?b)) 0 86400))"
    by blast
  then have r3: "async_log_success_event example_config increment_accepted (example_event None (Some ''openai'')) =
     ([Increment ''provider_spend:openai:1d'' 0 86400], Inr ())"
    by (simp add: spend_key_def increment_accepted_def)
  from missing_event_fields [of "example_event None (Some ''azure'')" ?cfg'
      increment_accepted "\<lparr>response_cost = None\<rparr>" "\<lparr>custom_llm_provider = Some ''azure''\<rparr>"
      "''azure''" ?bad] d dt
  have r4: "async_log_success_event ?cfg' increment_accepted (example_event None (Some ''azure'')) =
     ([], Inl (ValueError ''Unsupported time period format: 7x''))"
    by blast
  from r1 r2 r3 r4 show ?thesis by blast
qed

text \<open>
  Claim C4 as stated fails: an event whose payload has no cost raises nothing, and a cost
  of 0 is recorded for \<^verbatim>\<open>openai\<close>.
\<close>

theorem missing_cost_counterexample:
  "response_cost \<lparr>response_cost = None\<rparr> = None \<and>
   standard_logging_object (example_event None (Some ''openai'')) = Some \<lparr>response_cost = None\<rparr> \<and>
   async_log_success_event example_config increment_accepted (example_event None (Some ''openai'')) =
     ([Increment ''provider_spend:openai:1d'' 0 86400], Inr ())"
  by (simp add: recorder_defs example_config_def example_event_def increment_accepted_def
      get_ttl_seconds_1d)

subsection \<open>Propagation of exceptions\<close>

lemma read_provider_spend_first_error:
  assumes "\<forall>d\<in>set pre. \<exists>p. get_llm_provider_for_deployment glp d = Inr p"
    and "get_llm_provider_for_deployment glp d = Inl e"
  shows "read_provider_spend cfg glp cache (pre @ d # post) = ([], Inl e)"
  using collect_first_error [OF assms, of cfg post "[]"]
  by (simp add: read_provider_spend_def)

lemma async_get_of_read_error:
  assumes "read_provider_spend cfg glp cache healthy = (calls, Inl e)"
  shows "async_get_available_deployments cfg glp cache rnd healthy = (calls, Inl e)"
  using assms by (simp add: async_get_available_deployments_def potential_deployments_def)

lemma read_provider_spend_cache_error:
  assumes "collect_provider_configs cfg glp healthy [] = Inr pcs"
    and "cache (cache_keys (provider_configs pcs)) = Inl e"
  shows "read_provider_spend cfg glp cache healthy =
           ([BatchGet (cache_keys (provider_configs pcs))], Inl e)"
  using assms by (simp add: read_provider_spend_def Let_def)

text \<open>
  Claim C9. When the provider of a candidate cannot be derived, the exception of the first
  such candidate leaves \<open>async_get_available_deployments\<close>, before any call to the cache.
  When every provider is derived, one batch read is issued, and an exception it raises
  leaves the function as it is.
\<close>

theorem derivation_and_read_errors_propagate:
  "((\<forall>d\<in>set pre. \<exists>p. get_llm_provider_for_deployment glp d = Inr p) \<and>
    get_llm_provider_for_deployment glp d = Inl e \<longrightarrow>
      async_get_available_deployments cfg glp cache rnd (pre @ d # post) = ([], Inl e)) \<and>
   ((\<forall>d\<in>set healthy. \<exists>p. get_llm_provider_for_deployment glp d = Inr p) \<longrightarrow>
      (\<exists>keys. fst (async_get_available_deployments cfg glp cache rnd healthy) = [BatchGet keys] \<and>
         (\<forall>e'. cache keys = Inl e' \<longrightarrow>
            snd (async_get_available_deployments cfg glp cache rnd healthy) = Inl e')))"
proof -
  have a: "async_get_available_deployments cfg glp cache rnd (pre @ d # post) = ([], Inl e)"
    if "\<forall>d\<in>set pre. \<exists>p. get_llm_provider_for_deployment glp d = Inr p"
      and "get_llm_provider_for_deployment glp d = Inl e"
    using async_get_of_read_error [OF read_provider_spend_first_error [OF that]] .
  have b: "\<exists>keys. fst (async_get_available_deployments cfg glp cache rnd healthy) = [BatchGet keys] \<and>
         (\<forall>e'. cache keys = Inl e' \<longrightarrow>
            snd (async_get_available_deployments cfg glp cache rnd healthy) = Inl e')"
    if "\<forall>d\<in>set healthy. \<exists>p. get_llm_provider_for_deployment glp d = Inr p"
  proof -
    from collect_total [OF that] obtain pcs
      where c: "collect_provider_configs cfg glp healthy [] = Inr pcs" by blast
    let ?keys = "cache_keys (provider_configs pcs)"
    have "fst (async_get_available_deployments cfg glp cache rnd healthy) = [BatchGet ?keys]"
      using c by (simp add: calls_same read_provider_spend_calls)
    moreover have "snd (async_get_available_deployments cfg glp cache rnd healthy) = Inl e'"
      if "cache ?keys = Inl e'" for e'
      using async_get_of_read_error [OF read_provider_spend_cache_error [of cfg glp healthy pcs cache e', OF c that]] by simp
    ultimately show ?thesis by blast
  qed
  from a b show ?thesis by blast
qed

theorem derivation_and_read_errors_propagate_witness:
  "get_llm_provider_for_deployment example_provider (example_deployment ''openai/gpt-4'') = Inr ''openai'' \<and>
   get_llm_provider_for_deployment example_provider (example_deployment '''') =
     Inl (OtherError ''BadRequestError'') \<and>
   async_get_available_deployments example_config example_provider
     (ledger_reader (example_ledger 40 50)) 0
     ([example_deployment ''openai/gpt-4''] @ example_deployment '''' #
      [example_deployment ''anthropic/claude'']) = ([], Inl (OtherError ''BadRequestError'')) \<and>
   (\<exists>keys. fst (async_get_available_deployments example_config example_provider
                  (answer_with (Inl (OtherError ''ConnectionError''))) 0
                  [example_deployment ''openai/gpt-4'']) = [BatchGet keys] \<and>
           answer_with (Inl (OtherError ''ConnectionError'')) keys = Inl (OtherError ''ConnectionError'') \<and>
           snd (async_get_available_deployments example_config example_provider
                  (answer_with (Inl (OtherError ''ConnectionError''))) 0
                  [example_deployment ''openai/gpt-4'']) = Inl (OtherError ''ConnectionError''))"
proof -
  have h1: "get_llm_provider_for_deployment example_provider (example_deployment ''openai/gpt-4'')
      = Inr ''openai''"
    by (simp add: get_llm_provider_for_deployment_def example_provider_def example_deployment_def)
  have h2: "get_llm_provider_for_deployment example_provider (example_deployment '''') =
     Inl (OtherError ''BadRequestError'')"
    by (simp add: get_llm_provider_for_deployment_def example_provider_def example_deployment_def)
  have h3: "\<forall>d\<in>set [example_deployment ''openai/gpt-4''].
      \<exists>p. get_llm_provider_for_deployment example_provider d = Inr p"
    using h1 by simp
  have h4: "answer_with (Inl (OtherError ''ConnectionError'')) keys = Inl (OtherError ''ConnectionError'')"
    for keys by (simp add: answer_with_def)
  from derivation_and_read_errors_propagate
    [of "[example_deployment ''openai/gpt-4'']" example_provider "example_deployment ''''"
        "OtherError ''BadRequestError''" example_config "ledger_reader (example_ledger 40 50)" 0
        "[example_deployment ''anthropic/claude'']" "[]"] h2 h3
  have r1: "async_get_available_deployments example_config example_provider
     (ledger_reader (example_ledger 40 50)) 0
     ([example_deployment ''openai/gpt-4''] @ example_deployment '''' #
      [example_deployment ''anthropic/claude'']) = ([], Inl (OtherError ''BadRequestError''))"
    by blast
  from derivation_and_read_errors_propagate
    [of "[]" example_provider "example_deployment ''''" "OtherError ''BadRequestError''"
        example_config "answer_with (Inl (OtherError ''ConnectionError''))" 0 "[]"
        "[example_deployment ''openai/gpt-4'']"] h3 h4
  have r2: "\<exists>keys. fst (async_get_available_deployments example_config example_provider
                  (answer_with (Inl (OtherError ''ConnectionError''))) 0
                  [example_deployment ''openai/gpt-4'']) = [BatchGet keys] \<and>
           answer_with (Inl (OtherError ''ConnectionError'')) keys = Inl (OtherError ''ConnectionError'') \<and>
           snd (async_get_available_deployments example_config example_provider
                  (answer_with (Inl (OtherError ''ConnectionError''))) 0
                  [example_deployment ''openai/gpt-4'']) = Inl (OtherError ''ConnectionError'')"
    by blast
  from h1 h2 r1 r2 show ?thesis by blast
qed

subsection \<open>The batch read\<close>

lemma float_or_zero_simps [simp]:
  "float_or_zero None = 0" "float_or_zero (Some v) = v"
  by (simp_all add: float_or_zero_def)

lemma build_spend_map_short:
  assumes "length cs < idx + length ps" and "ps \<noteq> []"
  shows "build_spend_map cs idx ps m = Inl (IndexError ''list index out of range'')"
proof (cases "build_spend_map cs idx ps m")
  case (Inl e)
  with build_spend_map_error show ?thesis by blast
next
  case (Inr m')
  then have "\<exists>m'. build_spend_map cs idx ps m = Inr m'" by blast
  with build_spend_map_ok [of cs idx ps m] assms show ?thesis by simp
qed

lemma read_provider_spend_of_build:
  assumes "collect_provider_configs cfg glp healthy [] = Inr pcs"
    and "pc = provider_configs pcs"
    and "cache (cache_keys pc) = Inr answer"
  shows "read_provider_spend cfg glp cache healthy =
     ([BatchGet (cache_keys pc)],
      case build_spend_map (current_spends answer (length pc)) 0 (map fst pc) [] of
        Inl e \<Rightarrow> Inl e | Inr m \<Rightarrow> Inr (pc, m))"
  using assms by (simp add: read_provider_spend_def Let_def split: sum.splits)

lemma async_get_of_read_ok:
  assumes "read_provider_spend cfg glp cache healthy = (calls, Inr (pc, m))"
  shows "\<exists>r. async_get_available_deployments cfg glp cache rnd healthy = (calls, Inr r)"
  using potential_deployments_eq [OF assms]
  by (simp add: async_get_available_deployments_def)

lemma spend_map_zero:
  assumes "build_spend_map (replicate n (Some 0)) 0 ps [] = Inr m" and "distinct ps"
    and "length ps \<le> n" and "p \<in> set ps"
  shows "spend_of m p = 0"
proof -
  from assms(4) obtain i where i: "i < length ps" "ps ! i = p"
    by (auto simp: in_set_conv_nth)
  from build_spend_map_nth [OF assms(1,2) i(1)] i assms(3)
  show ?thesis by (simp add: spend_of_def)
qed

text \<open>
  Claim C10. Let the providers be derived and the batch read answer without an exception.
  If the answer is \<^verbatim>\<open>None\<close> or empty, every budgeted provider's spend is 0 and the function
  returns without an exception. If the answer is a list that is not empty, the list is
  indexed once for each entry of \<^verbatim>\<open>provider_configs\<close>, whose providers are distinct: the
  spend map is built exactly when the list is at least as long as \<^verbatim>\<open>provider_configs\<close>,
  \<^verbatim>\<open>IndexError\<close> is raised otherwise, and the provider at position \<open>i\<close> gets the entry at
  position \<open>i\<close>, with \<^verbatim>\<open>None\<close> read as 0.
\<close>

theorem batch_answer_to_spend_map:
  assumes "collect_provider_configs cfg glp healthy [] = Inr pcs"
    and "pc = provider_configs pcs"
    and "cache (cache_keys pc) = Inr answer"
  shows "distinct (map fst pc) \<and>
     (answer = None \<or> answer = Some [] \<longrightarrow>
        (\<exists>m. read_provider_spend cfg glp cache healthy = ([BatchGet (cache_keys pc)], Inr (pc, m)) \<and>
             (\<forall>p\<in>fst ` set pc. spend_of m p = 0)) \<and>
        (\<exists>r. snd (async_get_available_deployments cfg glp cache rnd healthy) = Inr r)) \<and>
     (\<forall>xs. answer = Some xs \<and> xs \<noteq> [] \<longrightarrow>
        ((\<exists>m. read_provider_spend cfg glp cache healthy = ([BatchGet (cache_keys pc)], Inr (pc, m)))
           \<longleftrightarrow> length pc \<le> length xs) \<and>
        (length xs < length pc \<longrightarrow>
           read_provider_spend cfg glp cache healthy =
             ([BatchGet (cache_keys pc)], Inl (IndexError ''list index out of range''))) \<and>
        (\<forall>m i. read_provider_spend cfg glp cache healthy = ([BatchGet (cache_keys pc)], Inr (pc, m)) \<and>
               i < length pc \<longrightarrow>
               map_of m (fst (pc ! i)) = Some (case xs ! i of None \<Rightarrow> 0 | Some v \<Rightarrow> v)))"
proof -
  let ?ps = "map fst pc"
  let ?calls = "[BatchGet (cache_keys pc)]"
  note rd = read_provider_spend_of_build [of cfg glp healthy pcs pc cache answer, OF assms]
  from collect_distinct [OF assms(1)] have "distinct (map fst pcs)" by simp
  with assms(2) have dist: "distinct ?ps" by (simp add: provider_configs_distinct)
  have open_case: "(\<exists>m. read_provider_spend cfg glp cache healthy = (?calls, Inr (pc, m)) \<and>
             (\<forall>p\<in>fst ` set pc. spend_of m p = 0)) \<and>
        (\<exists>r. snd (async_get_available_deployments cfg glp cache rnd healthy) = Inr r)"
    if "answer = None \<or> answer = Some []"
  proof -
    from that have cs: "current_spends answer (length pc) = replicate (length pc) (Some 0)"
      by (auto simp: current_spends_def)
    from build_spend_map_ok [of "replicate (length pc) (Some 0)" 0 ?ps "[]"]
    obtain m where m: "build_spend_map (replicate (length pc) (Some 0)) 0 ?ps [] = Inr m"
      by auto
    with rd cs have r: "read_provider_spend cfg glp cache healthy = (?calls, Inr (pc, m))"
      by simp
    have "\<forall>p\<in>fst ` set pc. spend_of m p = 0"
      using spend_map_zero [OF m dist] by simp
    moreover from async_get_of_read_ok [OF r, of rnd]
    have "\<exists>r. snd (async_get_available_deployments cfg glp cache rnd healthy) = Inr r"
      by auto
    ultimately show ?thesis using r by blast
  qed
  have list_case: "((\<exists>m. read_provider_spend cfg glp cache healthy = (?calls, Inr (pc, m)))
           \<longleftrightarrow> length pc \<le> length xs) \<and>
        (length xs < length pc \<longrightarrow>
           read_provider_spend cfg glp cache healthy =
             (?calls, Inl (IndexError ''list index out of range''))) \<and>
        (\<forall>m i. read_provider_spend cfg glp cache healthy = (?calls, Inr (pc, m)) \<and>
               i < length pc \<longrightarrow>
               map_of m (fst (pc ! i)) = Some (case xs ! i of None \<Rightarrow> 0 | Some v \<Rightarrow> v))"
    if "answer = Some xs \<and> xs \<noteq> []" for xs
  proof -
    from that have cs: "current_spends answer (length pc) = xs"
      by (simp add: current_spends_def)
    have iff: "(\<exists>m. read_provider_spend cfg glp cache healthy = (?calls, Inr (pc, m)))
           \<longleftrightarrow> length pc \<le> length xs"
      using build_spend_map_ok [of xs 0 ?ps "[]"] rd cs
      by (auto split: sum.splits)
    have short: "read_provider_spend cfg glp cache healthy =
             (?calls, Inl (IndexError ''list index out of range''))"
      if "length xs < length pc"
    proof -
      from that have "?ps \<noteq> []" by auto
      from build_spend_map_short [of xs 0 ?ps "[]", OF _ this] that rd cs
      show ?thesis by simp
    qed
    have ent: "map_of m (fst (pc ! i)) = Some (case xs ! i of None \<Rightarrow> 0 | Some v \<Rightarrow> v)"
      if r: "read_provider_spend cfg glp cache healthy = (?calls, Inr (pc, m))"
        and i: "i < length pc" for m i
    proof -
      from r rd cs have "build_spend_map xs 0 ?ps [] = Inr m"
        by (auto split: sum.splits)
      from build_spend_map_nth [OF this dist, of i] i
      show ?thesis by (simp add: float_or_zero_def split: option.splits)
    qed
    from iff short ent show ?thesis by blast
  qed
  from dist open_case list_case show ?thesis by blast
qed

lemma example_collect:
  "collect_provider_configs example_config example_provider
     [example_deployment ''openai/gpt-4'', example_deployment ''anthropic/claude''] [] =
   Inr [(''openai'', Some \<lparr>time_period = ''1d'', budget_limit = 100\<rparr>),
        (''anthropic'', Some \<lparr>time_period = ''1d'', budget_limit = 50\<rparr>)]"
  by (simp add: filter_defs example_defs)

lemma example_provider_configs:
  "[(''openai'', \<lparr>time_period = ''1d'', budget_limit = 100\<rparr>),
    (''anthropic'', \<lparr>time_period = ''1d'', budget_limit = 50\<rparr>)] =
   provider_configs
     [(''openai'', Some \<lparr>time_period = ''1d'', budget_limit = 100\<rparr>),
      (''anthropic'', Some \<lparr>time_period = ''1d'', budget_limit = 50\<rparr>)]"
  by (simp add: filter_defs)

theorem batch_answer_to_spend_map_witness:
  "collect_provider_configs example_config example_provider
     [example_deployment ''openai/gpt-4'', example_deployment ''anthropic/claude''] [] =
   Inr [(''openai'', Some \<lparr>time_period = ''1d'', budget_limit = 100\<rparr>),
        (''anthropic'', Some \<lparr>time_period = ''1d'', budget_limit = 50\<rparr>)] \<and>
   (\<exists>r. snd (async_get_available_deployments example_config example_provider
                (answer_with (Inr None)) 0
                [example_deployment ''openai/gpt-4'', example_deployment ''anthropic/claude'']) = Inr r) \<and>
   read_provider_spend example_config example_provider (answer_with (Inr (Some [Some 1])))
     [example_deployment ''openai/gpt-4'', example_deployment ''anthropic/claude''] =
   ([BatchGet [''provider_spend:openai:1d'', ''provider_spend:anthropic:1d'']],
    Inl (IndexError ''list index out of range''))"
proof -
  let ?pc = "[(''openai'', \<lparr>time_period = ''1d'', budget_limit = 100\<rparr>),
              (''anthropic'', \<lparr>time_period = ''1d'', budget_limit = 50\<rparr>)]"
  let ?healthy = "[example_deployment ''openai/gpt-4'', example_deployment ''anthropic/claude'']"
  have k: "cache_keys ?pc = [''provider_spend:openai:1d'', ''provider_spend:anthropic:1d'']"
    by (simp add: cache_keys_def spend_key_def)
  have a1: "answer_with (Inr None) (cache_keys ?pc) = Inr None"
    by (simp add: answer_with_def)
  have a2: "answer_with (Inr (Some [Some 1])) (cache_keys ?pc) = Inr (Some [Some 1])"
    by (simp add: answer_with_def)
  from batch_answer_to_spend_map
    [of example_config example_provider ?healthy _ ?pc "answer_with (Inr None)" None 0,
      OF example_collect example_provider_configs a1]
  have r1: "\<exists>r. snd (async_get_available_deployments example_config example_provider
                (answer_with (Inr None)) 0 ?healthy) = Inr r"
    by blast
  from batch_answer_to_spend_map
    [of example_config example_provider ?healthy _ ?pc "answer_with (Inr (Some [Some 1]))"
        "Some [Some 1]" 0, OF example_collect example_provider_configs a2]
  have "length [Some (1::real)] < length ?pc \<longrightarrow>
     read_provider_spend example_config example_provider (answer_with (Inr (Some [Some 1]))) ?healthy =
       ([BatchGet (cache_keys ?pc)], Inl (IndexError ''list index out of range''))"
    by blast
  then have r2: "read_provider_spend example_config example_provider
      (answer_with (Inr (Some [Some 1]))) ?healthy =
       ([BatchGet [''provider_spend:openai:1d'', ''provider_spend:anthropic:1d'']],
        Inl (IndexError ''list index out of range''))"
    by (simp add: k)
  from example_collect r1 r2 show ?thesis by blast
qed

lemma spend_key_provider:
  assumes "spend_key p t = spend_key p' t'" and "CHR '':'' \<notin> set p" and "CHR '':'' \<notin> set p'"
  shows "p = p'"
proof -
  from assms(1) have e: "p @ CHR '':'' # t = p' @ CHR '':'' # t'" by (simp add: spend_key_def)
  have "takeWhile (\<lambda>c. c \<noteq> CHR '':'') (q @ CHR '':'' # u) = q" if "CHR '':'' \<notin> set q" for q u
    using that by (induction q) auto
  from this [OF assms(2), of t] this [OF assms(3), of t'] e show ?thesis by simp
qed

lemma cache_keys_distinct:
  assumes "distinct (map fst pc)" and "\<forall>p\<in>fst ` set pc. CHR '':'' \<notin> set p"
  shows "distinct (cache_keys pc)"
proof -
  have "inj_on (\<lambda>(p, b). spend_key p (time_period b)) (set pc)"
  proof (rule inj_onI)
    fix x y assume x: "x \<in> set pc" and y: "y \<in> set pc"
      and e: "(case x of (p, b) \<Rightarrow> spend_key p (time_period b)) =
              (case y of (p, b) \<Rightarrow> spend_key p (time_period b))"
    obtain p b where xp: "x = (p, b)" by (cases x)
    obtain p' b' where yp: "y = (p', b')" by (cases y)
    from x y xp yp assms(2) have "CHR '':'' \<notin> set p" "CHR '':'' \<notin> set p'" by force+
    with e xp yp have "p = p'" using spend_key_provider by simp
    with assms(1) x y xp yp show "x = y" by (simp add: eq_key_imp_eq_value)
  qed
  moreover from assms(1) have "distinct pc" by (simp add: distinct_map)
  ultimately show ?thesis by (simp add: cache_keys_def distinct_map)
qed

lemma provider_configs_set:
  assumes "collect_provider_configs cfg glp healthy [] = Inr pcs"
  shows "(p, b) \<in> set (provider_configs pcs) \<longleftrightarrow>
           (\<exists>d\<in>set healthy. get_llm_provider_for_deployment glp d = Inr p) \<and> cfg p = Some b"
proof -
  from collect_distinct [OF assms] have "distinct (map fst pcs)" by simp
  then have "distinct (map fst (provider_configs pcs))" by (rule provider_configs_distinct)
  then have "(p, b) \<in> set (provider_configs pcs) \<longleftrightarrow> map_of (provider_configs pcs) p = Some b"
    by simp
  with provider_configs_of_collect [OF assms, of p] show ?thesis by auto
qed

text \<open>
  Claim C6. The function issues no call to the cache or one batch read, and one when every
  provider is derived. The keys of that read are made from the entries of
  \<^verbatim>\<open>provider_configs\<close>, in which each provider occurs once however many candidates share it;
  each entry is a provider of some candidate with its budget configuration, so a provider
  without one gives no key. The key strings themselves are distinct when no provider name
  contains a colon.
\<close>

theorem batch_lookup_keys:
  "fst (async_get_available_deployments cfg glp cache rnd healthy) = [] \<and>
     \<not> (\<forall>d\<in>set healthy. \<exists>p. get_llm_provider_for_deployment glp d = Inr p) \<or>
   (\<exists>pc. fst (async_get_available_deployments cfg glp cache rnd healthy) = [BatchGet (cache_keys pc)] \<and>
      distinct (map fst pc) \<and>
      (\<forall>p b. (p, b) \<in> set pc \<longleftrightarrow>
         (\<exists>d\<in>set healthy. get_llm_provider_for_deployment glp d = Inr p) \<and>
         get_budget_config_for_provider cfg p = Some b) \<and>
      ((\<forall>p\<in>fst ` set pc. CHR '':'' \<notin> set p) \<longrightarrow> distinct (cache_keys pc)))"
proof (cases "collect_provider_configs cfg glp healthy []")
  case (Inl e)
  then have "fst (async_get_available_deployments cfg glp cache rnd healthy) = []"
    by (simp add: calls_same read_provider_spend_calls)
  moreover have "\<not> (\<forall>d\<in>set healthy. \<exists>p. get_llm_provider_for_deployment glp d = Inr p)"
    using collect_total [of healthy glp cfg "[]"] Inl by auto
  ultimately show ?thesis by blast
next
  case (Inr pcs)
  let ?pc = "provider_configs pcs"
  have c: "fst (async_get_available_deployments cfg glp cache rnd healthy) = [BatchGet (cache_keys ?pc)]"
    using Inr by (simp add: calls_same read_provider_spend_calls)
  from collect_distinct [OF Inr] have "distinct (map fst pcs)" by simp
  then have d: "distinct (map fst ?pc)" by (rule provider_configs_distinct)
  have s: "\<forall>p b. (p, b) \<in> set ?pc \<longleftrightarrow>
         (\<exists>d\<in>set healthy. get_llm_provider_for_deployment glp d = Inr p) \<and>
         get_budget_config_for_provider cfg p = Some b"
    using provider_configs_set [OF Inr] by (simp add: get_budget_config_for_provider_def)
  from c d s cache_keys_distinct [OF d] show ?thesis by blast
qed

theorem batch_lookup_keys_witness:
  "fst (async_get_available_deployments example_config example_provider
          (ledger_reader (example_ledger 40 50)) 0
          [example_deployment ''openai/gpt-4'', example_deployment ''azure/gpt-4'',
           example_deployment ''openai/gpt-3.5'', example_deployment ''anthropic/claude'']) =
     [BatchGet [''provider_spend:openai:1d'', ''provider_spend:anthropic:1d'']] \<and>
   (\<exists>pc. [BatchGet [''provider_spend:openai:1d'', ''provider_spend:anthropic:1d'']] =
           [BatchGet (cache_keys pc)] \<and> distinct (map fst pc) \<and>
         (\<forall>p b. (p, b) \<in> set pc \<longleftrightarrow>
            (\<exists>d\<in>set [example_deployment ''openai/gpt-4'', example_deployment ''azure/gpt-4'',
                      example_deployment ''openai/gpt-3.5'', example_deployment ''anthropic/claude''].
                get_llm_provider_for_deployment example_provider d = Inr p) \<and>
            get_budget_config_for_provider example_config p = Some b))"
proof -
  let ?healthy = "[example_deployment ''openai/gpt-4'', example_deployment ''azure/gpt-4'',
           example_deployment ''openai/gpt-3.5'', example_deployment ''anthropic/claude'']"
  have e: "fst (async_get_available_deployments example_config example_provider
          (ledger_reader (example_ledger 40 50)) 0 ?healthy) =
     [BatchGet [''provider_spend:openai:1d'', ''provider_spend:anthropic:1d'']]"
    by (simp add: filter_defs example_defs)
  from batch_lookup_keys [of example_config example_provider
      "ledger_reader (example_ledger 40 50)" 0 ?healthy] e
  show ?thesis by (simp only: list.simps) blast
qed

subsection \<open>Recording and reading back\<close>

lemma batchGetSpend_nth:
  "i < length keys \<Longrightarrow>
     batchGetSpend store keys ! i = (case store (keys ! i) of None \<Rightarrow> 0 | Some (s, t) \<Rightarrow> s)"
  by (simp add: batchGetSpend_def)

lemma ledger_read_spend:
  assumes c: "collect_provider_configs cfg glp healthy [] = Inr pcs"
    and mem: "\<exists>d\<in>set healthy. get_llm_provider_for_deployment glp d = Inr p"
    and b: "cfg p = Some b"
  shows "\<exists>m. read_provider_spend cfg glp (ledger_reader store) healthy =
            ([BatchGet (cache_keys (provider_configs pcs))], Inr (provider_configs pcs, m)) \<and>
          spend_key p (time_period b) \<in> set (cache_keys (provider_configs pcs)) \<and>
          spend_of m p =
            (case store (spend_key p (time_period b)) of None \<Rightarrow> 0 | Some (s, t) \<Rightarrow> s)"
proof -
  let ?pc = "provider_configs pcs"
  let ?keys = "cache_keys ?pc"
  let ?xs = "map Some (batchGetSpend store ?keys)"
  have len: "length ?xs = length ?pc" by (simp add: batchGetSpend_def cache_keys_def)
  from provider_configs_set [OF c, of p b] mem b have in_pc: "(p, b) \<in> set ?pc" by simp
  then obtain i where i: "i < length ?pc" "?pc ! i = (p, b)" by (auto simp: in_set_conv_nth)
  then have key_i: "?keys ! i = spend_key p (time_period b)" by (simp add: cache_keys_def)
  from in_pc have key_in: "spend_key p (time_period b) \<in> set ?keys"
    by (force simp: cache_keys_def)
  from i have ne: "?xs \<noteq> []" using len by auto
  have ans: "ledger_reader store ?keys = Inr (Some ?xs)" by (simp add: ledger_reader_def)
  from ne have cs: "current_spends (Some ?xs) (length ?pc) = ?xs"
    by (simp add: current_spends_def)
  from collect_distinct [OF c] have "distinct (map fst pcs)" by simp
  then have dist: "distinct (map fst ?pc)" by (rule provider_configs_distinct)
  from build_spend_map_ok [of ?xs 0 "map fst ?pc" "[]"] len
  obtain m where bm: "build_spend_map ?xs 0 (map fst ?pc) [] = Inr m" by auto
  from read_provider_spend_of_build [of cfg glp healthy pcs ?pc "ledger_reader store" "Some ?xs",
      OF c refl ans] cs bm
  have m: "read_provider_spend cfg glp (ledger_reader store) healthy =
      ([BatchGet ?keys], Inr (?pc, m))" by simp
  have ent: "map_of m (fst (?pc ! i)) = Some (float_or_zero (?xs ! i))"
    using build_spend_map_nth [OF bm dist, of i] i by simp
  from i have ik: "i < length ?keys" by (simp add: cache_keys_def)
  from ent i ik have "map_of m p = Some (batchGetSpend store ?keys ! i)"
    by (simp add: batchGetSpend_def)
  with batchGetSpend_nth [OF ik, of store] key_i
  have "spend_of m p = (case store (spend_key p (time_period b)) of None \<Rightarrow> 0 | Some (s, t) \<Rightarrow> s)"
    by (simp add: spend_of_def)
  with m key_in show ?thesis by blast
qed

text \<open>
  Claim C5. Let provider \<open>p\<close> have a budget configuration with a well-formed period, and
  let the ledger hold no counter under \<open>p\<close>'s key. The recorder, given cost \<open>c\<close> for \<open>p\<close>,
  issues one increment: of \<open>c\<close>, under the key \<^verbatim>\<open>provider_spend:{provider}:{period}\<close>, with
  the period in seconds as expiry. In the ledger after that increment the counter holds
  \<open>c\<close> with that expiry, and the admission filter, for candidates among which \<open>p\<close> occurs,
  reads under the same key and finds the spend \<open>c\<close> for \<open>p\<close>.
\<close>

theorem recorded_cost_is_read_back:
  assumes "get_budget_config_for_provider cfg p = Some b"
    and "get_ttl_seconds (time_period b) = Inr ttl"
    and "store (spend_key p (time_period b)) = None"
    and "standard_logging_object kwargs = Some payload"
    and "response_cost payload = Some c"
    and "logged_litellm_params kwargs = Some params"
    and "custom_llm_provider params = Some p"
    and "\<forall>d\<in>set healthy. \<exists>q. get_llm_provider_for_deployment glp d = Inr q"
    and "\<exists>d\<in>set healthy. get_llm_provider_for_deployment glp d = Inr p"
  shows "fst (async_log_success_event cfg async_increment_cache kwargs) =
           [Increment (spend_key p (time_period b)) c ttl] \<and>
         spend_key p (time_period b) = ''provider_spend:'' @ p @ '':'' @ time_period b \<and>
         apply_calls (fst (async_log_success_event cfg async_increment_cache kwargs)) store
           (spend_key p (time_period b)) = Some (c, ttl) \<and>
         (\<exists>keys pc m.
            read_provider_spend cfg glp
              (ledger_reader
                 (apply_calls (fst (async_log_success_event cfg async_increment_cache kwargs)) store))
              healthy = ([BatchGet keys], Inr (pc, m)) \<and>
            spend_key p (time_period b) \<in> set keys \<and> spend_of m p = c)"
proof -
  let ?key = "spend_key p (time_period b)"
  let ?calls = "fst (async_log_success_event cfg async_increment_cache kwargs)"
  from assms(1) have b: "cfg p = Some b" by (simp add: get_budget_config_for_provider_def)
  from assms(1,2,4,5,6,7) have calls: "?calls = [Increment ?key c ttl]"
    by (simp add: async_log_success_event_def spend_increment_def)
  from assms(3) have st: "apply_calls ?calls store = store(?key \<mapsto> (c, ttl))"
    by (simp add: calls incrementSpend_def)
  from collect_total [OF assms(8), of cfg "[]"] obtain pcs
    where col: "collect_provider_configs cfg glp healthy [] = Inr pcs" by blast
  from ledger_read_spend [OF col assms(9) b, of "store(?key \<mapsto> (c, ttl))"]
  have "\<exists>keys pc m.
      read_provider_spend cfg glp (ledger_reader (store(?key \<mapsto> (c, ttl)))) healthy =
        ([BatchGet keys], Inr (pc, m)) \<and> ?key \<in> set keys \<and> spend_of m p = c"
    by auto
  with calls st show ?thesis by (simp add: spend_key_def)
qed

theorem recorded_cost_is_read_back_witness:
  "get_budget_config_for_provider example_config ''openai'' =
     Some \<lparr>time_period = ''1d'', budget_limit = 100\<rparr> \<and>
   get_ttl_seconds ''1d'' = Inr 86400 \<and>
   (Map.empty :: ledger) ''provider_spend:openai:1d'' = None \<and>
   fst (async_log_success_event example_config increment_accepted
          (example_event (Some 12.5) (Some ''openai''))) =
     [Increment ''provider_spend:openai:1d'' 12.5 86400] \<and>
   apply_calls [Increment ''provider_spend:openai:1d'' 12.5 86400] Map.empty
     ''provider_spend:openai:1d'' = Some (12.5, 86400) \<and>
   (\<exists>keys pc m.
      read_provider_spend example_config example_provider
        (ledger_reader (apply_calls [Increment ''provider_spend:openai:1d'' 12.5 86400] Map.empty))
        [example_deployment ''openai/gpt-4'', example_deployment ''anthropic/claude''] =
        ([BatchGet keys], Inr (pc, m)) \<and>
      ''provider_spend:openai:1d'' \<in> set keys \<and> spend_of m ''openai'' = 12.5)"
proof -
  let ?b = "\<lparr>time_period = ''1d'', budget_limit = 100\<rparr>"
  let ?healthy = "[example_deployment ''openai/gpt-4'', example_deployment ''anthropic/claude'']"
  have k: "spend_key ''openai'' (time_period ?b) = ''provider_spend:openai:1d''"
    by (simp add: spend_key_def)
  have h1: "get_budget_config_for_provider example_config ''openai'' = Some ?b"
    by (simp add: get_budget_config_for_provider_def example_config_def)
  have h2: "get_ttl_seconds (time_period ?b) = Inr 86400" by (simp add: get_ttl_seconds_1d)
  have h3: "(Map.empty :: ledger) (spend_key ''openai'' (time_period ?b)) = None" by simp
  have h4: "standard_logging_object (example_event (Some 12.5) (Some ''openai'')) =
      Some \<lparr>response_cost = Some 12.5\<rparr>" by (simp add: example_event_def)
  have h5: "response_cost \<lparr>response_cost = Some 12.5\<rparr> = Some 12.5" by simp
  have h6: "logged_litellm_params (example_event (Some 12.5) (Some ''openai'')) =
      Some \<lparr>custom_llm_provider = Some ''openai''\<rparr>" by (simp add: example_event_def)
  have h7: "custom_llm_provider \<lparr>custom_llm_provider = Some ''openai''\<rparr> = Some ''openai''" by simp
  have h8: "\<forall>d\<in>set ?healthy. \<exists>q. get_llm_provider_for_deployment example_provider d = Inr q"
    by (simp add: get_llm_provider_for_deployment_def example_provider_def example_deployment_def)
  have h9: "\<exists>d\<in>set ?healthy. get_llm_provider_for_deployment example_provider d = Inr ''openai''"
    by (simp add: get_llm_provider_for_deployment_def example_provider_def example_deployment_def)
  note t = recorded_cost_is_read_back [OF h1 h2 h3 h4 h5 h6 h7 h8 h9, of increment_accepted]
  from t have c: "fst (async_log_success_event example_config increment_accepted
          (example_event (Some 12.5) (Some ''openai''))) =
     [Increment ''provider_spend:openai:1d'' 12.5 86400]"
    by (simp add: k)
  from t show ?thesis
    unfolding c k using h1 get_ttl_seconds_1d c by simp
qed

end
